theory Spec2Isabelle
  imports Main "HOL-Library.Word"
begin

section \<open>Erlang terms as seen through the NIF interface\<close>

text \<open>
  The C file \<^verbatim>\<open>c_src/esqlite3_nif.c\<close> manipulates Erlang terms only through the
  functions of \<^verbatim>\<open>erl_nif.h\<close>. A term is modelled by the datatype below. A list is
  built from \<open>ENil\<close> and \<open>ECons\<close>, so improper lists exist as in Erlang. A double is
  kept as its 64-bit pattern: the code only moves doubles around. A byte is a \<open>char\<close>.
  \<open>ENonValue\<close> is the machine word 0, which \<^verbatim>\<open>command_create\<close> stores in the
  \<^verbatim>\<open>ref\<close> and \<^verbatim>\<open>arg\<close> fields; it is no Erlang term.
\<close>

datatype resource = ConnectionRes nat | StatementRes nat

datatype eterm =
    EInt int
  | EDouble "64 word"
  | EAtom string
  | EBinary string
  | ENil
  | ECons eterm eterm
  | ETuple "eterm list"
  | ERef nat
  | ELocalPid nat
  | ERemotePid nat
  | EResource resource
  | EBadarg
  | ENonValue

text \<open>The \<^verbatim>\<open>#define\<close>s of the source, and the result codes of \<^verbatim>\<open>sqlite3.h\<close>.\<close>

definition MAX_ATOM_LENGTH :: nat where "MAX_ATOM_LENGTH = 255"
definition MAX_PATHNAME :: nat where "MAX_PATHNAME = 512"

definition SQLITE_OK :: int where "SQLITE_OK = 0"
definition SQLITE_BUSY :: int where "SQLITE_BUSY = 5"
definition SQLITE_ROW :: int where "SQLITE_ROW = 100"
definition SQLITE_DONE :: int where "SQLITE_DONE = 101"
definition SQLITE_INTEGER :: int where "SQLITE_INTEGER = 1"
definition SQLITE_FLOAT :: int where "SQLITE_FLOAT = 2"
definition SQLITE_TEXT :: int where "SQLITE_TEXT = 3"
definition SQLITE_BLOB :: int where "SQLITE_BLOB = 4"
definition SQLITE_NULL :: int where "SQLITE_NULL = 5"

text \<open>A C string stops at its first NUL byte.\<close>

definition NUL :: char where "NUL = CHR 0x00"

definition c_string :: "string \<Rightarrow> string" where
  "c_string bytes = takeWhile (\<lambda>c. c \<noteq> NUL) bytes"

definition strlen :: "string \<Rightarrow> nat" where
  "strlen bytes = length (c_string bytes)"

text \<open>
  \<^verbatim>\<open>make_atom\<close> returns the atom of the given name, existing or new;
  \<^verbatim>\<open>enif_make_string\<close> builds the list of the character codes of a C string.
\<close>

definition make_atom :: "string \<Rightarrow> eterm" where
  "make_atom atom_name = EAtom atom_name"

definition enif_make_tuple2 :: "eterm \<Rightarrow> eterm \<Rightarrow> eterm" where
  "enif_make_tuple2 a b = ETuple [a, b]"

definition enif_make_string :: "string \<Rightarrow> eterm" where
  "enif_make_string s = foldr (\<lambda>c t. ECons (EInt (of_char c)) t) s ENil"

definition make_ok_tuple :: "eterm \<Rightarrow> eterm" where
  "make_ok_tuple v = enif_make_tuple2 (make_atom ''ok'') v"

definition make_error_tuple :: "string \<Rightarrow> eterm" where
  "make_error_tuple reason = enif_make_tuple2 (make_atom ''error'') (make_atom reason)"

definition make_sqlite3_error_tuple :: "string \<Rightarrow> eterm" where
  "make_sqlite3_error_tuple msg =
     enif_make_tuple2 (make_atom ''error'')
       (enif_make_tuple2 (make_atom ''sqlite3_error'') (enif_make_string msg))"

section \<open>Commands, connections and statements\<close>

datatype command_type =
    cmd_unknown | cmd_open | cmd_exec | cmd_prepare | cmd_bind
  | cmd_step | cmd_column_names | cmd_close | cmd_stop

text \<open>
  Pointers are natural numbers and a nullable pointer is an \<open>option\<close>. The
  \<^verbatim>\<open>pid\<close> of a fresh command is not initialised by \<^verbatim>\<open>command_create\<close>: \<open>None\<close>.
\<close>

record esqlite_command =
  type :: command_type
  ref :: eterm
  pid :: "nat option"
  arg :: eterm
  stmt :: "nat option"

record esqlite_connection =
  db :: "nat option"
  commands :: "esqlite_command list option"
  alive :: int

record esqlite_statement =
  connection :: "nat option"
  statement :: "nat option"

section \<open>The platform: engine, allocator, queue and threads\<close>

text \<open>
  Every call that leaves the C file is written to a log, in order. What such a call
  returns is decided by the platform, a parameter of the model: a function of the log up
  to and including the call. Any deterministic engine and allocator is an instance.
\<close>

datatype call =
    Sqlite3_open string
  | Sqlite3_close "nat option"
  | Sqlite3_errmsg "nat option"
  | Sqlite3_exec "nat option" string
  | Sqlite3_prepare_v2 "nat option" string
  | Usleep int
  | Sqlite3_bind_parameter_count "nat option"
  | Sqlite3_reset "nat option"
  | Sqlite3_bind_int "nat option" nat int
  | Sqlite3_bind_double "nat option" nat "64 word"
  | Sqlite3_bind_null "nat option" nat
  | Sqlite3_bind_text "nat option" nat string
  | Sqlite3_bind_blob "nat option" nat string
  | Sqlite3_step "nat option"
  | Sqlite3_column_count "nat option"
  | Sqlite3_column_type "nat option" nat
  | Sqlite3_column_int "nat option" nat
  | Sqlite3_column_double "nat option" nat
  | Sqlite3_column_blob "nat option" nat
  | Sqlite3_column_bytes "nat option" nat
  | Sqlite3_column_text "nat option" nat
  | Sqlite3_column_name "nat option" nat
  | Malloc int
  | Enif_alloc
  | Enif_alloc_env
  | Enif_alloc_binary int
  | Enif_alloc_resource
  | Enif_keep_resource nat
  | Enif_release_resource nat
  | Enif_send "nat option" eterm
  | Queue_push esqlite_command
  | Queue_send esqlite_command
  | Queue_pop
  | Queue_destroy
  | Enif_thread_join
  | Enif_thread_opts_destroy
  | Command_destroy esqlite_command

record platform =
  rc :: "call list \<Rightarrow> int"
  ptr :: "call list \<Rightarrow> nat option"
  text_of :: "call list \<Rightarrow> string"
  double_of :: "call list \<Rightarrow> 64 word"
  after_binary :: string
  stale_binary :: string
  bytes_first :: bool

text \<open>
  \<open>rc\<close> is the integer a call returns, \<open>ptr\<close> the pointer it returns or stores through
  an out parameter (\<open>None\<close> is \<^verbatim>\<open>NULL\<close>), \<open>text_of\<close> the bytes it returns. The
  fields \<open>after_binary\<close> and \<open>stale_binary\<close> are memory the C code reads without
  having written it: the bytes that follow the data of an \<^verbatim>\<open>ErlNifBinary\<close>, and the
  data of an \<^verbatim>\<open>ErlNifBinary\<close> that \<^verbatim>\<open>enif_inspect_iolist_as_binary\<close> refused to
  fill. \<open>bytes_first\<close> is the choice of the compiler in
  \<^verbatim>\<open>make_binary(env, sqlite3_column_blob(statement, i), sqlite3_column_bytes(statement, i))\<close>,
  where C leaves the order of the two calls open: true when
  \<^verbatim>\<open>sqlite3_column_bytes\<close> is called first.
\<close>

section \<open>Result rows\<close>

definition make_binary :: "platform \<Rightarrow> string \<Rightarrow> int \<Rightarrow> call list \<Rightarrow> eterm \<times> call list" where
  "make_binary P bytes sz h =
     (let h1 = h @ [Enif_alloc_binary sz] in
      if rc P h1 = 0 then (make_atom ''error'', h1)
      else (EBinary (take (nat sz) bytes), h1))"

definition make_cell :: "platform \<Rightarrow> nat option \<Rightarrow> nat \<Rightarrow> call list \<Rightarrow> eterm \<times> call list" where
  "make_cell P st i h =
     (let h1 = h @ [Sqlite3_column_type st i]; ty = rc P h1 in
      if ty = SQLITE_INTEGER then
        (let h2 = h1 @ [Sqlite3_column_int st i] in (EInt (rc P h2), h2))
      else if ty = SQLITE_FLOAT then
        (let h2 = h1 @ [Sqlite3_column_double st i] in (EDouble (double_of P h2), h2))
      else if ty = SQLITE_BLOB then
        (if bytes_first P then
           (let h2 = h1 @ [Sqlite3_column_bytes st i];
                h3 = h2 @ [Sqlite3_column_blob st i]
            in make_binary P (text_of P h3) (rc P h2) h3)
         else
           (let h2 = h1 @ [Sqlite3_column_blob st i];
                h3 = h2 @ [Sqlite3_column_bytes st i]
            in make_binary P (text_of P h2) (rc P h3) h3))
      else if ty = SQLITE_NULL then (make_atom ''undefined'', h1)
      else if ty = SQLITE_TEXT then
        (let h2 = h1 @ [Sqlite3_column_text st i]
         in (enif_make_string (c_string (text_of P h2)), h2))
      else (make_atom ''should_not_happen'', h1))"

text \<open>The loop \<^verbatim>\<open>for(i = 0; i < size; i++)\<close> of \<^verbatim>\<open>make_row\<close>, by the iterations left.\<close>

fun make_row_loop ::
  "platform \<Rightarrow> nat option \<Rightarrow> nat \<Rightarrow> nat \<Rightarrow> call list \<Rightarrow> eterm list \<times> call list" where
  "make_row_loop P st i 0 h = ([], h)"
| "make_row_loop P st i (Suc k) h =
     (case make_cell P st i h of
        (c, h1) \<Rightarrow> (case make_row_loop P st (Suc i) k h1 of (cs, h2) \<Rightarrow> (c # cs, h2)))"

definition make_row :: "platform \<Rightarrow> nat option \<Rightarrow> call list \<Rightarrow> eterm \<times> call list" where
  "make_row P st h =
     (let h1 = h @ [Sqlite3_column_count st]; sz = rc P h1;
          h2 = h1 @ [Malloc sz]
      in if ptr P h2 = None then (make_error_tuple ''no_memory'', h2)
         else (case make_row_loop P st 0 (nat sz) h2 of (cells, h3) \<Rightarrow> (ETuple cells, h3)))"

definition do_step :: "platform \<Rightarrow> nat option \<Rightarrow> call list \<Rightarrow> eterm \<times> call list" where
  "do_step P st h =
     (let h1 = h @ [Sqlite3_step st]; r = rc P h1 in
      if r = SQLITE_DONE then (make_atom ''$done'', h1)
      else if r = SQLITE_BUSY then (make_atom ''$busy'', h1)
      else if r = SQLITE_ROW then make_row P st h1
      else (make_error_tuple ''unexpected_return_value'', h1))"

fun do_column_names_loop ::
  "platform \<Rightarrow> nat option \<Rightarrow> nat \<Rightarrow> nat \<Rightarrow> call list \<Rightarrow> eterm list \<times> call list" where
  "do_column_names_loop P st i 0 h = ([], h)"
| "do_column_names_loop P st i (Suc k) h =
     (let h1 = h @ [Sqlite3_column_name st i]
      in (case do_column_names_loop P st (Suc i) k h1 of
            (names, h2) \<Rightarrow> (make_atom (c_string (text_of P h1)) # names, h2)))"

definition do_column_names :: "platform \<Rightarrow> nat option \<Rightarrow> call list \<Rightarrow> eterm \<times> call list" where
  "do_column_names P st h =
     (let h1 = h @ [Sqlite3_column_count st]; sz = rc P h1;
          h2 = h1 @ [Malloc sz]
      in if ptr P h2 = None then (make_error_tuple ''no_memory'', h2)
         else (case do_column_names_loop P st 0 (nat sz) h2 of
                 (names, h3) \<Rightarrow> (ETuple names, h3)))"

section \<open>Reading terms\<close>

definition is_byte :: "eterm \<Rightarrow> bool" where
  "is_byte t = (case t of EInt n \<Rightarrow> 0 \<le> n \<and> n < 256 | _ \<Rightarrow> False)"

definition byte_of :: "eterm \<Rightarrow> char" where
  "byte_of t = (case t of EInt n \<Rightarrow> char_of n | _ \<Rightarrow> NUL)"

text \<open>
  \<^verbatim>\<open>enif_get_string(env, list, buf, len, ERL_NIF_LATIN1)\<close>: the number of bytes
  written with the final NUL, 0 when the term is no list of bytes, \<open>- len\<close> when the
  string was truncated. The second component is the content of \<open>buf\<close> before its final
  NUL.
\<close>

fun enif_get_string_loop :: "eterm \<Rightarrow> nat \<Rightarrow> string \<Rightarrow> int \<times> string" where
  "enif_get_string_loop ENil len buf = (int (length buf) + 1, buf)"
| "enif_get_string_loop (ECons head tail) len buf =
     (if \<not> is_byte head then (0, buf)
      else if length buf + 1 \<ge> len then (- int len, buf)
      else enif_get_string_loop tail len (buf @ [byte_of head]))"
| "enif_get_string_loop t len buf = (0, buf)"

definition enif_get_string :: "eterm \<Rightarrow> nat \<Rightarrow> int \<times> string" where
  "enif_get_string t len = (if len < 1 then (0, []) else enif_get_string_loop t len [])"

text \<open>\<^verbatim>\<open>enif_inspect_iolist_as_binary\<close>: the bytes of a binary or of an iolist.\<close>

fun iolist_bytes :: "eterm \<Rightarrow> string option" where
  "iolist_bytes ENil = Some []"
| "iolist_bytes (EBinary b) = Some b"
| "iolist_bytes (ECons h t) =
     (case (case h of EInt n \<Rightarrow> (if 0 \<le> n \<and> n < 256 then Some [char_of n] else None)
                    | _ \<Rightarrow> iolist_bytes h) of
        None \<Rightarrow> None
      | Some a \<Rightarrow> (case iolist_bytes t of None \<Rightarrow> None | Some b \<Rightarrow> Some (a @ b)))"
| "iolist_bytes t = None"

definition enif_is_list :: "eterm \<Rightarrow> bool" where
  "enif_is_list t = (case t of ENil \<Rightarrow> True | ECons h t' \<Rightarrow> True | _ \<Rightarrow> False)"

text \<open>
  The cells of a proper list. \<^verbatim>\<open>enif_get_list_length\<close> succeeds on a proper list
  only and gives the number of its cells; \<^verbatim>\<open>enif_get_list_cell\<close> then walks them.
\<close>

fun list_cells :: "eterm \<Rightarrow> eterm list option" where
  "list_cells ENil = Some []"
| "list_cells (ECons h t) = (case list_cells t of None \<Rightarrow> None | Some xs \<Rightarrow> Some (h # xs))"
| "list_cells t = None"

definition enif_get_int :: "eterm \<Rightarrow> int option" where
  "enif_get_int t =
     (case t of EInt n \<Rightarrow> (if - (2 ^ 31) \<le> n \<and> n < 2 ^ 31 then Some n else None)
              | _ \<Rightarrow> None)"

definition enif_get_double :: "eterm \<Rightarrow> 64 word option" where
  "enif_get_double t = (case t of EDouble d \<Rightarrow> Some d | _ \<Rightarrow> None)"

text \<open>
  \<^verbatim>\<open>enif_get_atom(env, term, buf, size, ERL_NIF_LATIN1)\<close> writes the name and a NUL
  when they fit into \<open>size\<close> bytes.
\<close>

definition enif_get_atom :: "eterm \<Rightarrow> nat \<Rightarrow> string option" where
  "enif_get_atom t sz =
     (case t of EAtom a \<Rightarrow> (if length a + 1 \<le> sz then Some a else None) | _ \<Rightarrow> None)"

definition enif_is_ref :: "eterm \<Rightarrow> bool" where
  "enif_is_ref t = (case t of ERef r \<Rightarrow> True | _ \<Rightarrow> False)"

definition enif_get_local_pid :: "eterm \<Rightarrow> nat option" where
  "enif_get_local_pid t = (case t of ELocalPid p \<Rightarrow> Some p | _ \<Rightarrow> None)"

section \<open>Binding parameters\<close>

text \<open>
  \<^verbatim>\<open>bind_cell\<close> returns what the engine's bind function returns, or -1. The atom
  buffer holds the name and a NUL, so \<^verbatim>\<open>strcmp\<close> and \<^verbatim>\<open>strlen\<close> see the name up to
  its first NUL. \<^verbatim>\<open>strlen((char *) the_blob.data)\<close> runs over the data of the binary
  and on into the memory behind it.
\<close>

definition bind_cell ::
  "platform \<Rightarrow> eterm \<Rightarrow> nat option \<Rightarrow> nat \<Rightarrow> call list \<Rightarrow> int \<times> call list" where
  "bind_cell P cell st i h =
     (case enif_get_int cell of
        Some the_int \<Rightarrow> (let h1 = h @ [Sqlite3_bind_int st i the_int] in (rc P h1, h1))
      | None \<Rightarrow>
     (case enif_get_double cell of
        Some the_double \<Rightarrow>
          (let h1 = h @ [Sqlite3_bind_double st i the_double] in (rc P h1, h1))
      | None \<Rightarrow>
     (case enif_get_atom cell (MAX_ATOM_LENGTH + 1) of
        Some the_atom \<Rightarrow>
          (if c_string the_atom = ''undefined''
           then (let h1 = h @ [Sqlite3_bind_null st i] in (rc P h1, h1))
           else (let h1 = h @ [Sqlite3_bind_text st i (c_string the_atom)] in (rc P h1, h1)))
      | None \<Rightarrow>
     (case iolist_bytes cell of
        Some the_blob \<Rightarrow>
          (if enif_is_list cell \<and> strlen (the_blob @ after_binary P) = length the_blob
           then (let h1 = h @ [Sqlite3_bind_text st i the_blob] in (rc P h1, h1))
           else (let h1 = h @ [Sqlite3_bind_blob st i the_blob] in (rc P h1, h1)))
      | None \<Rightarrow> (- 1, h)))))"

text \<open>The loop of \<^verbatim>\<open>do_bind\<close> over the cells of the list, \<open>i\<close> counting from 0.\<close>

fun do_bind_loop ::
  "platform \<Rightarrow> nat option \<Rightarrow> nat option \<Rightarrow> nat \<Rightarrow> eterm list \<Rightarrow> call list
     \<Rightarrow> eterm \<times> call list" where
  "do_bind_loop P dbh st i [] h = (make_atom ''ok'', h)"
| "do_bind_loop P dbh st i (head # tail) h =
     (case bind_cell P head st (i + 1) h of
        (r, h1) \<Rightarrow>
          if r = - 1 then (make_error_tuple ''wrong_type'', h1)
          else if r \<noteq> SQLITE_OK then
            (let h2 = h1 @ [Sqlite3_errmsg dbh]
             in (make_sqlite3_error_tuple (c_string (text_of P h2)), h2))
          else do_bind_loop P dbh st (i + 1) tail h1)"

text \<open>
  \<^verbatim>\<open>parameter_count != list_length\<close> compares an \<^verbatim>\<open>int\<close> with an
  \<^verbatim>\<open>unsigned int\<close>: the count is converted to unsigned.
\<close>

definition do_bind ::
  "platform \<Rightarrow> nat option \<Rightarrow> nat option \<Rightarrow> eterm \<Rightarrow> call list \<Rightarrow> eterm \<times> call list" where
  "do_bind P dbh st a h =
     (let h1 = h @ [Sqlite3_bind_parameter_count st]; parameter_count = rc P h1 in
      case list_cells a of
        None \<Rightarrow> (make_error_tuple ''bad_arg_list'', h1)
      | Some cells \<Rightarrow>
          if parameter_count mod 2 ^ 32 \<noteq> int (length cells) mod 2 ^ 32
          then (make_error_tuple ''args_wrong_length'', h1)
          else do_bind_loop P dbh st 0 cells (h1 @ [Sqlite3_reset st]))"

section \<open>The handlers that use the connection\<close>

text \<open>
  The world is the log and the memory of the resources: connections and statements by
  address.
\<close>

record world =
  hist :: "call list"
  conns :: "nat \<Rightarrow> esqlite_connection"
  stmts :: "nat \<Rightarrow> esqlite_statement"

definition log_call :: "call \<Rightarrow> world \<Rightarrow> world" where
  "log_call c w = w\<lparr>hist := hist w @ [c]\<rparr>"

definition set_db :: "nat \<Rightarrow> nat option \<Rightarrow> world \<Rightarrow> world" where
  "set_db c v w = w\<lparr>conns := (conns w)(c := (conns w c)\<lparr>db := v\<rparr>)\<rparr>"

definition set_alive :: "nat \<Rightarrow> int \<Rightarrow> world \<Rightarrow> world" where
  "set_alive c v w = w\<lparr>conns := (conns w)(c := (conns w c)\<lparr>alive := v\<rparr>)\<rparr>"

definition set_commands :: "nat \<Rightarrow> esqlite_command list option \<Rightarrow> world \<Rightarrow> world" where
  "set_commands c v w = w\<lparr>conns := (conns w)(c := (conns w c)\<lparr>commands := v\<rparr>)\<rparr>"

definition set_statement :: "nat \<Rightarrow> nat option \<Rightarrow> world \<Rightarrow> world" where
  "set_statement s v w = w\<lparr>stmts := (stmts w)(s := (stmts w s)\<lparr>statement := v\<rparr>)\<rparr>"

definition set_connection :: "nat \<Rightarrow> nat option \<Rightarrow> world \<Rightarrow> world" where
  "set_connection s v w = w\<lparr>stmts := (stmts w)(s := (stmts w s)\<lparr>connection := v\<rparr>)\<rparr>"

text \<open>
  In \<^verbatim>\<open>do_open\<close>, \<^verbatim>\<open>size\<close> is an \<^verbatim>\<open>unsigned int\<close>: the test \<^verbatim>\<open>size <= 0\<close> is on
  the result of \<^verbatim>\<open>enif_get_string\<close> converted to unsigned.
\<close>

definition do_open :: "platform \<Rightarrow> nat \<Rightarrow> eterm \<Rightarrow> world \<Rightarrow> eterm \<times> world" where
  "do_open P c a w =
     (case enif_get_string a MAX_PATHNAME of
        (sz, filename) \<Rightarrow>
          if sz mod 2 ^ 32 \<le> 0 then (make_error_tuple ''invalid_filename'', w)
          else
            (let w1 = log_call (Sqlite3_open (c_string filename)) w;
                 r = rc P (hist w1);
                 w2 = set_db c (ptr P (hist w1)) w1
             in if r \<noteq> SQLITE_OK then
                  (let w3 = log_call (Sqlite3_errmsg (db (conns w2 c))) w2;
                       error = make_sqlite3_error_tuple (c_string (text_of P (hist w3)));
                       w4 = log_call (Sqlite3_close (db (conns w3 c))) w3;
                       w5 = set_db c None w4
                   in (error, w5))
                else (make_atom ''ok'', w2)))"

text \<open>
  \<^verbatim>\<open>do_exec\<close> and \<^verbatim>\<open>do_prepare\<close> do not look at the result of
  \<^verbatim>\<open>enif_inspect_iolist_as_binary\<close>; \<^verbatim>\<open>do_exec\<close> hands the data to the engine as a
  C string.
\<close>

definition inspected :: "platform \<Rightarrow> eterm \<Rightarrow> string" where
  "inspected P a = (case iolist_bytes a of Some b \<Rightarrow> b | None \<Rightarrow> stale_binary P)"

definition do_exec :: "platform \<Rightarrow> nat \<Rightarrow> eterm \<Rightarrow> world \<Rightarrow> eterm \<times> world" where
  "do_exec P c a w =
     (let bin = inspected P a;
          w1 = log_call (Sqlite3_exec (db (conns w c)) (c_string (bin @ after_binary P))) w
      in if rc P (hist w1) \<noteq> SQLITE_OK then
           (let w2 = log_call (Sqlite3_errmsg (db (conns w1 c))) w1
            in (make_sqlite3_error_tuple (c_string (text_of P (hist w2))), w2))
         else (make_atom ''ok'', w1))"

text \<open>
  The \<^verbatim>\<open>do ... while (rc == SQLITE_BUSY && retries++ < 100)\<close> loop of
  \<^verbatim>\<open>do_prepare\<close>: one call of the function is one pass through the body, \<open>retries\<close>
  is the value of the counter in that pass, and the result is the last \<^verbatim>\<open>rc\<close>.
\<close>

function do_prepare_loop ::
  "platform \<Rightarrow> nat option \<Rightarrow> string \<Rightarrow> nat \<Rightarrow> nat \<Rightarrow> world \<Rightarrow> int \<times> world" where
  "do_prepare_loop P dbh bin s retries w =
     (let w1 = log_call (Sqlite3_prepare_v2 dbh bin) w;
          r = rc P (hist w1);
          w2 = set_statement s (ptr P (hist w1)) w1;
          w3 = log_call (Usleep (int retries * 100)) w2
      in if r = SQLITE_BUSY \<and> retries < 100
         then do_prepare_loop P dbh bin s (retries + 1) w3
         else (r, w3))"
  by pat_completeness auto
termination
  by (relation "measure (\<lambda>(P, dbh, bin, s, retries, w). 100 - retries)") auto

declare do_prepare_loop.simps [simp del]

definition do_prepare :: "platform \<Rightarrow> nat \<Rightarrow> eterm \<Rightarrow> world \<Rightarrow> eterm \<times> world" where
  "do_prepare P c a w =
     (let bin = inspected P a;
          w0 = log_call Enif_alloc_resource w
      in case ptr P (hist w0) of
           None \<Rightarrow> (make_error_tuple ''no_memory'', w0)
         | Some s \<Rightarrow>
             (case do_prepare_loop P (db (conns w0 c)) bin s 0 w0 of
                (r, w1) \<Rightarrow>
                  if r \<noteq> SQLITE_OK then
                    (let w2 = log_call (Sqlite3_errmsg (db (conns w1 c))) w1
                     in (make_sqlite3_error_tuple (c_string (text_of P (hist w2))), w2))
                  else
                    (let w2 = log_call (Enif_keep_resource c) w1;
                         w3 = set_connection s (Some c) w2;
                         w4 = log_call (Enif_release_resource s) w3
                     in (make_ok_tuple (EResource (StatementRes s)), w4))))"

definition do_close :: "platform \<Rightarrow> nat \<Rightarrow> eterm \<Rightarrow> world \<Rightarrow> eterm \<times> world" where
  "do_close P c a w =
     (let w1 = log_call (Sqlite3_close (db (conns w c))) w
      in if rc P (hist w1) \<noteq> SQLITE_OK then
           (let w2 = log_call (Sqlite3_errmsg (db (conns w1 c))) w1
            in (make_sqlite3_error_tuple (c_string (text_of P (hist w2))), w2))
         else (make_atom ''ok'', set_db c None w1))"

section \<open>The worker\<close>

text \<open>
  \<^verbatim>\<open>evaluate_command\<close> begins with
  \<^verbatim>\<open>if(!conn->db) make_error_tuple(cmd->env, "database_not_open");\<close>
  The statement has no \<^verbatim>\<open>return\<close>: the tuple is built and dropped, and control
  reaches the \<^verbatim>\<open>switch\<close>. \<open>dropped\<close> below is that value.
\<close>

definition lift_stmt :: "(call list \<Rightarrow> eterm \<times> call list) \<Rightarrow> world \<Rightarrow> eterm \<times> world" where
  "lift_stmt f w = (case f (hist w) of (t, h) \<Rightarrow> (t, w\<lparr>hist := h\<rparr>))"

definition evaluate_command ::
  "platform \<Rightarrow> esqlite_command \<Rightarrow> nat \<Rightarrow> world \<Rightarrow> eterm \<times> world" where
  "evaluate_command P cmd c w =
     (let dropped = (if db (conns w c) = None
                     then [make_error_tuple ''database_not_open''] else [])
      in case type cmd of
           cmd_open \<Rightarrow> do_open P c (arg cmd) w
         | cmd_exec \<Rightarrow> do_exec P c (arg cmd) w
         | cmd_prepare \<Rightarrow> do_prepare P c (arg cmd) w
         | cmd_step \<Rightarrow> lift_stmt (do_step P (stmt cmd)) w
         | cmd_bind \<Rightarrow> lift_stmt (do_bind P (db (conns w c)) (stmt cmd) (arg cmd)) w
         | cmd_column_names \<Rightarrow> lift_stmt (do_column_names P (stmt cmd)) w
         | cmd_close \<Rightarrow> do_close P c (arg cmd) w
         | _ \<Rightarrow> (make_error_tuple ''invalid_command'', w))"

definition make_answer :: "esqlite_command \<Rightarrow> eterm \<Rightarrow> eterm" where
  "make_answer cmd answer = enif_make_tuple2 (ref cmd) answer"

text \<open>
  The worker either returns or waits in \<^verbatim>\<open>queue_pop\<close> on an empty queue. The loop
  of \<^verbatim>\<open>esqlite_connection_run\<close> is a recursion over the content of the queue;
  \<^verbatim>\<open>queue_pop\<close> takes the head. The thread is started by \<^verbatim>\<open>esqlite_start\<close>
  after the queue was created; a connection without a queue is read as one with an
  empty queue.
\<close>

datatype 'a outcome = Returned 'a | Waiting 'a

fun run_loop ::
  "platform \<Rightarrow> nat \<Rightarrow> esqlite_command list \<Rightarrow> world
     \<Rightarrow> (esqlite_command list \<times> world) outcome" where
  "run_loop P c [] w = Waiting ([], log_call Queue_pop w)"
| "run_loop P c (cmd # queue) w =
     (let w1 = log_call Queue_pop w in
      if type cmd = cmd_stop then Returned (queue, log_call (Command_destroy cmd) w1)
      else
        (case evaluate_command P cmd c w1 of
           (answer, w2) \<Rightarrow>
             run_loop P c queue
               (log_call (Command_destroy cmd)
                  (log_call (Enif_send (pid cmd) (make_answer cmd answer)) w2))))"

definition queue_of :: "world \<Rightarrow> nat \<Rightarrow> esqlite_command list" where
  "queue_of w c = (case commands (conns w c) of Some q \<Rightarrow> q | None \<Rightarrow> [])"

definition esqlite_connection_run :: "platform \<Rightarrow> nat \<Rightarrow> world \<Rightarrow> world outcome" where
  "esqlite_connection_run P c w =
     (case run_loop P c (queue_of w c) (set_alive c 1 w) of
        Waiting (q, w1) \<Rightarrow> Waiting (set_commands c (Some q) w1)
      | Returned (q, w1) \<Rightarrow> Returned (set_alive c 0 (set_commands c (Some q) w1)))"

section \<open>Commands and the queue\<close>

definition fresh_command :: esqlite_command where
  "fresh_command =
     \<lparr>type = cmd_unknown, ref = ENonValue, pid = None, arg = ENonValue, stmt = None\<rparr>"

definition command_create :: "platform \<Rightarrow> world \<Rightarrow> esqlite_command option \<times> world" where
  "command_create P w =
     (let w1 = log_call Enif_alloc w in
      if ptr P (hist w1) = None then (None, w1)
      else
        (let w2 = log_call Enif_alloc_env w1 in
         if ptr P (hist w2) = None then (None, log_call (Command_destroy fresh_command) w2)
         else (Some fresh_command, w2)))"

text \<open>
  Modelled from the spec: \<^verbatim>\<open>queue_push\<close> of \<^verbatim>\<open>queue.h\<close>, which is not among the
  sources. It appends to the tail and fails only when it cannot allocate; the result
  0 is failure. A connection made by \<^verbatim>\<open>esqlite_start\<close> has a queue; a push through a
  null queue pointer is taken as a failure.
\<close>

definition queue_push :: "platform \<Rightarrow> nat \<Rightarrow> esqlite_command \<Rightarrow> world \<Rightarrow> bool \<times> world" where
  "queue_push P c cmd w =
     (let w1 = log_call (Queue_push cmd) w in
      case commands (conns w1 c) of
        None \<Rightarrow> (False, w1)
      | Some q \<Rightarrow>
          if rc P (hist w1) = 0 then (False, w1)
          else (True, set_commands c (Some (q @ [cmd])) w1))"

section \<open>The exported functions\<close>

definition get_connection :: "eterm \<Rightarrow> nat option" where
  "get_connection t = (case t of EResource (ConnectionRes c) \<Rightarrow> Some c | _ \<Rightarrow> None)"

definition get_statement :: "eterm \<Rightarrow> nat option" where
  "get_statement t = (case t of EResource (StatementRes s) \<Rightarrow> Some s | _ \<Rightarrow> None)"

text \<open>
  \<^verbatim>\<open>esqlite_open\<close>, \<^verbatim>\<open>esqlite_exec\<close> and \<^verbatim>\<open>esqlite_prepare\<close> differ in the
  command type only; \<open>connection_call\<close> is their common body after the test of
  \<^verbatim>\<open>argc\<close>. \<^verbatim>\<open>enif_make_copy\<close> copies a term into the environment of the command.
\<close>

definition connection_call ::
  "platform \<Rightarrow> command_type \<Rightarrow> eterm \<Rightarrow> eterm \<Rightarrow> eterm \<Rightarrow> eterm \<Rightarrow> world \<Rightarrow> eterm \<times> world"
  where
  "connection_call P ty a0 a1 a2 a3 w =
     (case get_connection a0 of
        None \<Rightarrow> (EBadarg, w)
      | Some c \<Rightarrow>
          if \<not> enif_is_ref a1 then (make_error_tuple ''invalid_ref'', w)
          else (case enif_get_local_pid a2 of
                  None \<Rightarrow> (make_error_tuple ''invalid_pid'', w)
                | Some p \<Rightarrow>
                    (case command_create P w of
                       (None, w1) \<Rightarrow> (make_error_tuple ''command_create_failed'', w1)
                     | (Some cmd0, w1) \<Rightarrow>
                         (let cmd = cmd0\<lparr>type := ty, ref := a1, pid := Some p, arg := a3\<rparr>
                          in case queue_push P c cmd w1 of
                               (False, w2) \<Rightarrow> (make_error_tuple ''command_push_failed'', w2)
                             | (True, w2) \<Rightarrow> (make_atom ''ok'', w2)))))"

definition esqlite_open :: "platform \<Rightarrow> eterm list \<Rightarrow> world \<Rightarrow> eterm \<times> world" where
  "esqlite_open P argv w =
     (case argv of [a0, a1, a2, a3] \<Rightarrow> connection_call P cmd_open a0 a1 a2 a3 w
                 | _ \<Rightarrow> (EBadarg, w))"

definition esqlite_exec :: "platform \<Rightarrow> eterm list \<Rightarrow> world \<Rightarrow> eterm \<times> world" where
  "esqlite_exec P argv w =
     (case argv of [a0, a1, a2, a3] \<Rightarrow> connection_call P cmd_exec a0 a1 a2 a3 w
                 | _ \<Rightarrow> (EBadarg, w))"

definition esqlite_prepare :: "platform \<Rightarrow> eterm list \<Rightarrow> world \<Rightarrow> eterm \<times> world" where
  "esqlite_prepare P argv w =
     (case argv of [a0, a1, a2, a3] \<Rightarrow> connection_call P cmd_prepare a0 a1 a2 a3 w
                 | _ \<Rightarrow> (EBadarg, w))"

text \<open>
  \<^verbatim>\<open>esqlite_close\<close> does not test \<^verbatim>\<open>argc\<close>; it reads \<^verbatim>\<open>argv[0]\<close> to
  \<^verbatim>\<open>argv[2]\<close>, which the table \<^verbatim>\<open>nif_funcs\<close> (arity 3) provides. It leaves the
  \<^verbatim>\<open>arg\<close> of the command as \<^verbatim>\<open>command_create\<close> set it.
\<close>

definition esqlite_close ::
  "platform \<Rightarrow> eterm \<Rightarrow> eterm \<Rightarrow> eterm \<Rightarrow> world \<Rightarrow> eterm \<times> world" where
  "esqlite_close P a0 a1 a2 w = connection_call P cmd_close a0 a1 a2 ENonValue w"

text \<open>
  The three functions on a statement. After the command is filled in they test the
  connection of the statement and its queue, and push. \<^verbatim>\<open>esqlite_step\<close> and
  \<^verbatim>\<open>esqlite_column_names\<close> test \<^verbatim>\<open>stmt->statement\<close> before they create the command;
  \<^verbatim>\<open>esqlite_bind\<close> has no such test.
\<close>

definition statement_push ::
  "platform \<Rightarrow> nat \<Rightarrow> esqlite_command \<Rightarrow> world \<Rightarrow> eterm \<times> world" where
  "statement_push P s cmd w =
     (case connection (stmts w s) of
        None \<Rightarrow> (make_error_tuple ''no_connection'', w)
      | Some c \<Rightarrow>
          if commands (conns w c) = None then (make_error_tuple ''no_command_queue'', w)
          else (case queue_push P c cmd w of
                  (False, w1) \<Rightarrow> (make_error_tuple ''command_push_failed'', w1)
                | (True, w1) \<Rightarrow> (make_atom ''ok'', w1)))"

definition esqlite_bind :: "platform \<Rightarrow> eterm list \<Rightarrow> world \<Rightarrow> eterm \<times> world" where
  "esqlite_bind P argv w =
     (case argv of
        [a0, a1, a2, a3] \<Rightarrow>
          (case get_statement a0 of
             None \<Rightarrow> (EBadarg, w)
           | Some s \<Rightarrow>
               if \<not> enif_is_ref a1 then (make_error_tuple ''invalid_ref'', w)
               else (case enif_get_local_pid a2 of
                       None \<Rightarrow> (make_error_tuple ''invalid_pid'', w)
                     | Some p \<Rightarrow>
                         (case command_create P w of
                            (None, w1) \<Rightarrow> (make_error_tuple ''command_create_failed'', w1)
                          | (Some cmd0, w1) \<Rightarrow>
                              statement_push P s
                                (cmd0\<lparr>type := cmd_bind, ref := a1, pid := Some p,
                                      stmt := statement (stmts w1 s), arg := a3\<rparr>) w1)))
      | _ \<Rightarrow> (EBadarg, w))"

definition statement_call ::
  "platform \<Rightarrow> command_type \<Rightarrow> eterm list \<Rightarrow> world \<Rightarrow> eterm \<times> world" where
  "statement_call P ty argv w =
     (case argv of
        [a0, a1, a2] \<Rightarrow>
          (case get_statement a0 of
             None \<Rightarrow> (EBadarg, w)
           | Some s \<Rightarrow>
               if \<not> enif_is_ref a1 then (make_error_tuple ''invalid_ref'', w)
               else (case enif_get_local_pid a2 of
                       None \<Rightarrow> (make_error_tuple ''invalid_pid'', w)
                     | Some p \<Rightarrow>
                         if statement (stmts w s) = None
                         then (make_error_tuple ''no_prepared_statement'', w)
                         else
                           (case command_create P w of
                              (None, w1) \<Rightarrow> (make_error_tuple ''command_create_failed'', w1)
                            | (Some cmd0, w1) \<Rightarrow>
                                statement_push P s
                                  (cmd0\<lparr>type := ty, ref := a1, pid := Some p,
                                        stmt := statement (stmts w1 s)\<rparr>) w1)))
      | _ \<Rightarrow> (EBadarg, w))"

definition esqlite_step :: "platform \<Rightarrow> eterm list \<Rightarrow> world \<Rightarrow> eterm \<times> world" where
  "esqlite_step P argv w = statement_call P cmd_step argv w"

definition esqlite_column_names :: "platform \<Rightarrow> eterm list \<Rightarrow> world \<Rightarrow> eterm \<times> world" where
  "esqlite_column_names P argv w = statement_call P cmd_column_names argv w"

section \<open>The destructor of a connection\<close>

text \<open>
  \<^verbatim>\<open>destruct_esqlite_connection\<close> writes \<^verbatim>\<open>cmd->type\<close> without testing
  \<^verbatim>\<open>cmd\<close>: when \<^verbatim>\<open>command_create\<close> returns \<^verbatim>\<open>NULL\<close> the outcome is
  \<open>Null_command\<close>. \<^verbatim>\<open>enif_thread_join\<close> returns when the worker has returned. The
  worker has been running since \<^verbatim>\<open>esqlite_start\<close>; what it still has to do is to
  run the queue as it stands after the push, which is \<open>esqlite_connection_run\<close> on that
  world. The entry \<open>Enif_thread_join\<close> is written when the join returns, after the
  entries of the worker; when the worker ends up waiting in \<^verbatim>\<open>queue_pop\<close> (the stop
  command did not reach the queue) the join does not return: \<open>Join_waits\<close>.
  \<^verbatim>\<open>db->db\<close> is read after the join, in the world the worker left.
  \<^verbatim>\<open>queue_send\<close>, \<^verbatim>\<open>enif_thread_opts_destroy\<close> and \<^verbatim>\<open>queue_destroy\<close> appear in
  the log only.
\<close>

datatype destruct_outcome = Destroyed world | Null_command | Join_waits world

definition destruct_esqlite_connection :: "platform \<Rightarrow> nat \<Rightarrow> world \<Rightarrow> destruct_outcome" where
  "destruct_esqlite_connection P c w =
     (case command_create P w of
        (None, w1) \<Rightarrow> Null_command
      | (Some cmd0, w1) \<Rightarrow>
          (let cmd = cmd0\<lparr>type := cmd_stop\<rparr>;
               w2 = snd (queue_push P c cmd w1);
               w3 = log_call (Queue_send cmd) w2
           in case esqlite_connection_run P c w3 of
                Waiting w4 \<Rightarrow> Join_waits w4
              | Returned w4 \<Rightarrow>
                  (let w5 = log_call Enif_thread_join w4;
                       w6 = log_call Enif_thread_opts_destroy w5;
                       w7 = log_call Queue_destroy w6
                   in if db (conns w7 c) \<noteq> None
                      then Destroyed (log_call (Sqlite3_close (db (conns w7 c))) w7)
                      else Destroyed w7)))"

section \<open>Observations on the log, and platforms to run the model on\<close>

definition is_step :: "call \<Rightarrow> bool" where
  "is_step c = (case c of Sqlite3_step s \<Rightarrow> True | _ \<Rightarrow> False)"

text \<open>
  \<open>closed_connection\<close> is a connection as \<^verbatim>\<open>esqlite_start\<close> leaves it: the engine
  handle \<^verbatim>\<open>NULL\<close>, the queue empty, the worker running.
  \<open>const_platform r\<close> answers every call with the integer \<open>r\<close> and every allocation
  with the address 1. \<open>row_platform\<close> is an engine with one row of one integer column
  holding 7, statements of two parameters, a queue that accepts every push, and a NUL
  byte behind every binary.
\<close>

definition const_platform :: "int \<Rightarrow> platform" where
  "const_platform r =
     \<lparr>rc = (\<lambda>h. r), ptr = (\<lambda>h. Some 1), text_of = (\<lambda>h. ''engine says no''),
      double_of = (\<lambda>h. 0), after_binary = [], stale_binary = [], bytes_first = True\<rparr>"

definition row_rc :: "call list \<Rightarrow> int" where
  "row_rc h =
     (case last h of
        Sqlite3_step s \<Rightarrow> 100
      | Sqlite3_column_count s \<Rightarrow> 1
      | Sqlite3_column_type s i \<Rightarrow> 1
      | Sqlite3_column_int s i \<Rightarrow> 7
      | Sqlite3_bind_parameter_count s \<Rightarrow> 2
      | Queue_push cmd \<Rightarrow> 1
      | _ \<Rightarrow> 0)"

definition row_platform :: platform where
  "row_platform =
     \<lparr>rc = row_rc, ptr = (\<lambda>h. Some 1), text_of = (\<lambda>h. []),
      double_of = (\<lambda>h. 0), after_binary = [NUL], stale_binary = [], bytes_first = True\<rparr>"

definition closed_connection :: esqlite_connection where
  "closed_connection = \<lparr>db = None, commands = Some [], alive = 1\<rparr>"

definition world0 :: world where
  "world0 = \<lparr>hist = [], conns = (\<lambda>c. closed_connection),
             stmts = (\<lambda>s. \<lparr>connection = Some 0, statement = Some 1\<rparr>)\<rparr>"

definition is_prepare :: "call \<Rightarrow> bool" where
  "is_prepare c = (case c of Sqlite3_prepare_v2 d b \<Rightarrow> True | _ \<Rightarrow> False)"

text \<open>One pass through the body of the loop of \<^verbatim>\<open>do_prepare\<close>, as it shows in the log.\<close>

definition attempt :: "nat option \<Rightarrow> string \<Rightarrow> nat \<Rightarrow> call list" where
  "attempt dbh bin retries = [Sqlite3_prepare_v2 dbh bin, Usleep (int retries * 100)]"

text \<open>
  The classification of a bind value by the shape of the term: which engine call binds
  it at position \<open>i\<close>, if any. It is stated apart from \<open>bind_cell\<close>, which tries
  \<^verbatim>\<open>enif_get_int\<close>, \<^verbatim>\<open>enif_get_double\<close>, \<^verbatim>\<open>enif_get_atom\<close> and
  \<^verbatim>\<open>enif_inspect_iolist_as_binary\<close> in turn, and is compared with it below.
\<close>

definition bind_call :: "platform \<Rightarrow> nat option \<Rightarrow> nat \<Rightarrow> eterm \<Rightarrow> call option" where
  "bind_call P st i cell =
     (case cell of
        EInt n \<Rightarrow>
          (if - (2 ^ 31) \<le> n \<and> n < 2 ^ 31 then Some (Sqlite3_bind_int st i n) else None)
      | EDouble d \<Rightarrow> Some (Sqlite3_bind_double st i d)
      | EAtom a \<Rightarrow>
          (if MAX_ATOM_LENGTH < length a then None
           else if c_string a = ''undefined'' then Some (Sqlite3_bind_null st i)
           else Some (Sqlite3_bind_text st i (c_string a)))
      | _ \<Rightarrow>
          (case iolist_bytes cell of
             None \<Rightarrow> None
           | Some b \<Rightarrow>
               (if enif_is_list cell \<and> strlen (b @ after_binary P) = length b
                then Some (Sqlite3_bind_text st i b)
                else Some (Sqlite3_bind_blob st i b))))"

text \<open>
  The calls that bind the values of a list from position \<open>i + 1\<close> on, up to the first
  value that no call binds.
\<close>

fun bound_calls :: "platform \<Rightarrow> nat option \<Rightarrow> nat \<Rightarrow> eterm list \<Rightarrow> call list" where
  "bound_calls P st i [] = []"
| "bound_calls P st i (v # vs) =
     (case bind_call P st (i + 1) v of
        None \<Rightarrow> []
      | Some c \<Rightarrow> c # bound_calls P st (i + 1) vs)"

definition is_bind :: "call \<Rightarrow> bool" where
  "is_bind c =
     (case c of
        Sqlite3_bind_int s i n \<Rightarrow> True
      | Sqlite3_bind_double s i d \<Rightarrow> True
      | Sqlite3_bind_null s i \<Rightarrow> True
      | Sqlite3_bind_text s i b \<Rightarrow> True
      | Sqlite3_bind_blob s i b \<Rightarrow> True
      | _ \<Rightarrow> False)"

text \<open>
  A statement resource whose prepared statement is \<^verbatim>\<open>NULL\<close>, as \<^verbatim>\<open>do_prepare\<close>
  leaves it when the engine compiles an empty text, on a connection with an empty queue.
\<close>

definition world_null_statement :: world where
  "world_null_statement =
     \<lparr>hist = [], conns = (\<lambda>c. closed_connection),
      stmts = (\<lambda>s. \<lparr>connection = Some 0, statement = None\<rparr>)\<rparr>"

text \<open>
  The three tests every exported function makes on its first three arguments: the
  handle is a resource of the expected type, the token is a reference, the destination
  is a local process identifier; and the three results of a call that fails one of them
  or has the wrong number of arguments.
\<close>

definition accepted_shape :: "(eterm \<Rightarrow> nat option) \<Rightarrow> eterm \<Rightarrow> eterm \<Rightarrow> eterm \<Rightarrow> bool" where
  "accepted_shape get a0 a1 a2 =
     (get a0 \<noteq> None \<and> enif_is_ref a1 \<and> enif_get_local_pid a2 \<noteq> None)"

definition rejected :: "eterm \<Rightarrow> bool" where
  "rejected t =
     (t = EBadarg \<or> t = make_error_tuple ''invalid_ref'' \<or> t = make_error_tuple ''invalid_pid'')"

text \<open>The calls on the queue, and a connection that is open with handle 3.\<close>

definition is_queue_call :: "call \<Rightarrow> bool" where
  "is_queue_call c =
     (case c of Queue_push cmd \<Rightarrow> True | Queue_send cmd \<Rightarrow> True | Queue_pop \<Rightarrow> True
              | Queue_destroy \<Rightarrow> True | _ \<Rightarrow> False)"

definition stop_command :: esqlite_command where
  "stop_command = fresh_command\<lparr>type := cmd_stop\<rparr>"

definition world_open :: world where
  "world_open =
     \<lparr>hist = [], conns = (\<lambda>c. \<lparr>db = Some 3, commands = Some [], alive = 1\<rparr>),
      stmts = (\<lambda>s. \<lparr>connection = Some 0, statement = Some 1\<rparr>)\<rparr>"

definition is_send :: "call \<Rightarrow> bool" where
  "is_send c = (case c of Enif_send p m \<Rightarrow> True | _ \<Rightarrow> False)"

text \<open>
  What it is to read column \<open>j\<close> of the current row, said of the engine's answers and
  apart from \<open>make_cell\<close>, with which it is compared below: \<open>h\<close> is the log before,
  \<open>h'\<close> the log after, \<open>v\<close> the Erlang value. The engine is asked for the type of the
  column and then for its value by the function of that type; an integer column gives
  that integer, a float column that double, a blob column the binary of the first
  \<open>n\<close> bytes of the blob, \<open>n\<close> being the number of bytes the engine reports (or the
  atom \<open>error\<close> when the binary cannot be allocated), a null column the atom
  \<open>undefined\<close>, a text column the list of the characters of the text, and a column of
  any other type the atom \<open>should_not_happen\<close>.
\<close>

definition column_read ::
  "platform \<Rightarrow> nat option \<Rightarrow> nat \<Rightarrow> call list \<Rightarrow> call list \<Rightarrow> eterm \<Rightarrow> bool" where
  "column_read P st j h h' v =
     (let ht = h @ [Sqlite3_column_type st j]; ty = rc P ht in
      if ty = SQLITE_INTEGER then
        h' = ht @ [Sqlite3_column_int st j] \<and> v = EInt (rc P h')
      else if ty = SQLITE_FLOAT then
        h' = ht @ [Sqlite3_column_double st j] \<and> v = EDouble (double_of P h')
      else if ty = SQLITE_BLOB then
        (let asked = (if bytes_first P
                      then ht @ [Sqlite3_column_bytes st j, Sqlite3_column_blob st j]
                      else ht @ [Sqlite3_column_blob st j, Sqlite3_column_bytes st j]);
             n = (if bytes_first P then rc P (ht @ [Sqlite3_column_bytes st j])
                  else rc P asked);
             blob = (if bytes_first P then text_of P asked
                     else text_of P (ht @ [Sqlite3_column_blob st j]))
         in h' = asked @ [Enif_alloc_binary n]
            \<and> v = (if rc P h' = 0 then EAtom ''error'' else EBinary (take (nat n) blob)))
      else if ty = SQLITE_NULL then h' = ht \<and> v = EAtom ''undefined''
      else if ty = SQLITE_TEXT then
        h' = ht @ [Sqlite3_column_text st j]
        \<and> v = enif_make_string (c_string (text_of P h'))
      else h' = ht \<and> v = EAtom ''should_not_happen'')"

text \<open>
  The calls that the loop of the worker, the exported functions and the destructor make
  themselves, as opposed to those of the handlers.
\<close>

definition loop_call :: "call \<Rightarrow> bool" where
  "loop_call c =
     (case c of
        Enif_send p m \<Rightarrow> True
      | Queue_push cmd \<Rightarrow> True | Queue_send cmd \<Rightarrow> True | Queue_pop \<Rightarrow> True
      | Queue_destroy \<Rightarrow> True
      | Enif_thread_join \<Rightarrow> True | Enif_thread_opts_destroy \<Rightarrow> True
      | Command_destroy cmd \<Rightarrow> True
      | Enif_alloc \<Rightarrow> True | Enif_alloc_env \<Rightarrow> True
      | _ \<Rightarrow> False)"

text \<open>
  What the worker owes a command that is no stop command, said apart from \<open>run_loop\<close>,
  with which it is compared below. \<open>served P c cmd w\<close> is the world after the command
  has been popped in the world \<open>w\<close>, evaluated in the world so reached, answered with
  its token and that result to its destination, and destroyed; \<open>served_all\<close> does so
  for a list of commands in turn, and \<open>replies\<close> is the list of the messages owed to
  them, each result taken in the world the commands before it have left.
\<close>

definition served :: "platform \<Rightarrow> nat \<Rightarrow> esqlite_command \<Rightarrow> world \<Rightarrow> world" where
  "served P c cmd w =
     (case evaluate_command P cmd c (log_call Queue_pop w) of
        (answer, w2) \<Rightarrow>
          log_call (Command_destroy cmd)
            (log_call (Enif_send (pid cmd) (ETuple [ref cmd, answer])) w2))"

fun served_all :: "platform \<Rightarrow> nat \<Rightarrow> esqlite_command list \<Rightarrow> world \<Rightarrow> world" where
  "served_all P c [] w = w"
| "served_all P c (cmd # cmds) w = served_all P c cmds (served P c cmd w)"

fun replies :: "platform \<Rightarrow> nat \<Rightarrow> esqlite_command list \<Rightarrow> world \<Rightarrow> call list" where
  "replies P c [] w = []"
| "replies P c (cmd # cmds) w =
     Enif_send (pid cmd)
       (ETuple [ref cmd, fst (evaluate_command P cmd c (log_call Queue_pop w))])
     # replies P c cmds (served P c cmd w)"

text \<open>The log of a destruction that came to its end.\<close>

definition final_log :: "destruct_outcome \<Rightarrow> call list option" where
  "final_log r = (case r of Destroyed w \<Rightarrow> Some (hist w) | _ \<Rightarrow> None)"

definition close_command :: esqlite_command where
  "close_command =
     \<lparr>type = cmd_close, ref = ERef 6, pid = Some 7, arg = ENonValue, stmt = None\<rparr>"

text \<open>
  \<open>can_enqueue\<close>: the command can be allocated and pushed onto the queue \<open>q\<close> of
  connection \<open>c\<close>. \<open>enqueued\<close>: the world \<open>w'\<close> is \<open>w\<close> after just that, the command at
  the tail of the queue.
\<close>

definition can_enqueue ::
  "platform \<Rightarrow> world \<Rightarrow> nat \<Rightarrow> esqlite_command list \<Rightarrow> esqlite_command \<Rightarrow> bool" where
  "can_enqueue P w c q cmd =
     (ptr P (hist w @ [Enif_alloc]) \<noteq> None
      \<and> ptr P (hist w @ [Enif_alloc, Enif_alloc_env]) \<noteq> None
      \<and> commands (conns w c) = Some q
      \<and> rc P (hist w @ [Enif_alloc, Enif_alloc_env, Queue_push cmd]) \<noteq> 0)"

definition enqueued ::
  "world \<Rightarrow> world \<Rightarrow> nat \<Rightarrow> esqlite_command list \<Rightarrow> esqlite_command \<Rightarrow> bool" where
  "enqueued w w' c q cmd =
     (queue_of w' c = q @ [cmd]
      \<and> hist w' = hist w @ [Enif_alloc, Enif_alloc_env, Queue_push cmd])"

section \<open>Properties\<close>

subsection \<open>Stepping a statement\<close>

lemma make_cell_steps:
  "filter is_step (snd (make_cell P st i h)) = filter is_step h"
  by (simp add: make_cell_def make_binary_def Let_def is_step_def)

lemma make_row_loop_steps:
  "filter is_step (snd (make_row_loop P st i k h)) = filter is_step h"
proof (induction k arbitrary: i h)
  case 0
  then show ?case by simp
next
  case (Suc k)
  obtain c h1 where c: "make_cell P st i h = (c, h1)" by (cases "make_cell P st i h")
  obtain cs h2 where cs: "make_row_loop P st (Suc i) k h1 = (cs, h2)"
    by (cases "make_row_loop P st (Suc i) k h1")
  from make_cell_steps [of P st i h] c have "filter is_step h1 = filter is_step h" by simp
  moreover from Suc.IH [of "Suc i" h1] cs have "filter is_step h2 = filter is_step h1" by simp
  ultimately show ?case using c cs by simp
qed

lemma make_row_loop_length:
  "length (fst (make_row_loop P st i k h)) = k"
proof (induction k arbitrary: i h)
  case 0
  then show ?case by simp
next
  case (Suc k)
  obtain c h1 where c: "make_cell P st i h = (c, h1)" by (cases "make_cell P st i h")
  obtain cs h2 where cs: "make_row_loop P st (Suc i) k h1 = (cs, h2)"
    by (cases "make_row_loop P st (Suc i) k h1")
  from Suc.IH [of "Suc i" h1] cs have "length cs = k" by simp
  then show ?case using c cs by simp
qed

lemma make_row_steps:
  "filter is_step (snd (make_row P st h)) = filter is_step h"
proof -
  let ?n = "rc P (h @ [Sqlite3_column_count st])"
  let ?h2 = "h @ [Sqlite3_column_count st, Malloc ?n]"
  obtain cells h3 where l: "make_row_loop P st 0 (nat ?n) ?h2 = (cells, h3)"
    by (cases "make_row_loop P st 0 (nat ?n) ?h2")
  from make_row_loop_steps [of P st 0 "nat ?n" ?h2] l
  have "filter is_step h3 = filter is_step h" by (simp add: is_step_def)
  then show ?thesis using l by (simp add: make_row_def Let_def is_step_def)
qed

lemma make_cell_column_read:
  "column_read P st j h (snd (make_cell P st j h)) (fst (make_cell P st j h))"
  by (simp add: column_read_def make_cell_def make_binary_def make_atom_def Let_def)

lemma make_row_loop_snoc:
  "make_row_loop P st i (Suc k) h =
     (case make_row_loop P st i k h of
        (cs, hk) \<Rightarrow> (case make_cell P st (i + k) hk of (c, h') \<Rightarrow> (cs @ [c], h')))"
proof (induction k arbitrary: i h)
  case 0
  then show ?case by (simp split: prod.splits)
next
  case (Suc k)
  obtain c h1 where c: "make_cell P st i h = (c, h1)" by (cases "make_cell P st i h")
  have "make_row_loop P st i (Suc (Suc k)) h =
          (case make_row_loop P st (Suc i) (Suc k) h1 of (cs, h2) \<Rightarrow> (c # cs, h2))"
    using c by simp
  also have "\<dots> = (case make_row_loop P st (Suc i) k h1 of
        (cs, hk) \<Rightarrow> (case make_cell P st (Suc i + k) hk of (c', h') \<Rightarrow> (c # cs @ [c'], h')))"
    unfolding Suc.IH [of "Suc i" h1] by (simp split: prod.splits)
  also have "\<dots> = (case make_row_loop P st i (Suc k) h of
        (cs, hk) \<Rightarrow> (case make_cell P st (i + Suc k) hk of (c', h') \<Rightarrow> (cs @ [c'], h')))"
    using c by (simp split: prod.splits)
  finally show ?case .
qed

lemma make_row_loop_nth:
  "j < k \<Longrightarrow>
   fst (make_row_loop P st i k h) ! j = fst (make_cell P st (i + j) (snd (make_row_loop P st i j h)))"
proof (induction k)
  case 0
  then show ?case by simp
next
  case (Suc k)
  have l: "length (fst (make_row_loop P st i k h)) = k" by (rule make_row_loop_length)
  have f: "fst (make_row_loop P st i (Suc k) h)
             = fst (make_row_loop P st i k h)
               @ [fst (make_cell P st (i + k) (snd (make_row_loop P st i k h)))]"
    unfolding make_row_loop_snoc by (simp split: prod.splits)
  show ?case
  proof (cases "j < k")
    case True
    then show ?thesis using Suc.IH l unfolding f by (simp add: nth_append)
  next
    case False
    with Suc.prems have "j = k" by simp
    then show ?thesis using l unfolding f by (simp add: nth_append)
  qed
qed

lemma make_row_loop_next:
  "snd (make_row_loop P st i (Suc k) h) = snd (make_cell P st (i + k) (snd (make_row_loop P st i k h)))"
  unfolding make_row_loop_snoc by (simp split: prod.splits)

lemma make_row_columns:
  assumes "h2 = h @ [Sqlite3_column_count st, Malloc n]"
    and "n = rc P (h @ [Sqlite3_column_count st])"
  shows "if ptr P h2 = None
         then make_row P st h = (ETuple [EAtom ''error'', EAtom ''no_memory''], h2)
         else (\<exists>cells hs. make_row P st h = (ETuple cells, hs (nat n))
                 \<and> length cells = nat n \<and> hs 0 = h2
                 \<and> (\<forall>j < nat n. column_read P st j (hs j) (hs (Suc j)) (cells ! j)))"
proof (cases "ptr P h2")
  case None
  then show ?thesis
    using assms
    by (simp add: make_row_def Let_def make_error_tuple_def make_atom_def enif_make_tuple2_def)
next
  case (Some y)
  let ?hs = "\<lambda>j. snd (make_row_loop P st 0 j h2)"
  let ?cells = "fst (make_row_loop P st 0 (nat n) h2)"
  have 1: "make_row P st h = (ETuple ?cells, ?hs (nat n))"
    using Some assms by (simp add: make_row_def Let_def split: prod.splits)
  have 2: "length ?cells = nat n" by (rule make_row_loop_length)
  have 3: "?hs 0 = h2" by simp
  have 4: "column_read P st j (?hs j) (?hs (Suc j)) (?cells ! j)" if "j < nat n" for j
    using make_cell_column_read [of P st j "?hs j"] make_row_loop_nth [OF that, of P st 0 h2]
      make_row_loop_next [of P st 0 j h2]
    by simp
  have "make_row P st h = (ETuple ?cells, ?hs (nat n))
                 \<and> length ?cells = nat n \<and> ?hs 0 = h2
                 \<and> (\<forall>j < nat n. column_read P st j (?hs j) (?hs (Suc j)) (?cells ! j))"
    using 1 2 3 4 by simp
  then have "\<exists>cells hs. make_row P st h = (ETuple cells, hs (nat n))
                 \<and> length cells = nat n \<and> hs 0 = h2
                 \<and> (\<forall>j < nat n. column_read P st j (hs j) (hs (Suc j)) (cells ! j))"
    apply -
    apply (rule exI [of _ ?cells])
    apply (rule exI [of _ ?hs])
    apply assumption
    done
  then show ?thesis using Some by simp
qed

lemma do_step_steps:
  "filter is_step (snd (do_step P st h)) = filter is_step h @ [Sqlite3_step st]"
  using make_row_steps [of P st "h @ [Sqlite3_step st]"]
  by (simp add: do_step_def Let_def is_step_def)

text \<open>
  C7. A step command makes exactly one call of \<^verbatim>\<open>sqlite3_step\<close> (no retry), and its
  answer is decided by the status of that call: the atom \<open>$done\<close> for
  \<^verbatim>\<open>SQLITE_DONE\<close>, the atom \<open>$busy\<close> for \<^verbatim>\<open>SQLITE_BUSY\<close>, the row for
  \<^verbatim>\<open>SQLITE_ROW\<close>, and the error \<open>unexpected_return_value\<close> for every other status;
  in all cases but the row the step is the only call. For the row the engine is asked
  for the number \<open>n\<close> of columns and an array of \<open>n\<close> terms is allocated. If that fails
  the answer is the error \<open>no_memory\<close>. Otherwise the row is a tuple of \<open>n\<close> cells, and
  the columns are read in order from 0, each as \<open>column_read\<close> says, starting at the
  log after the allocation and each column at the log the one before it left: cell
  \<open>j\<close> is the value the engine gives for column \<open>j\<close>.
\<close>

theorem step_reply:
  assumes "type cmd = cmd_step"
    and "h1 = hist w @ [Sqlite3_step (stmt cmd)]"
    and "n = rc P (h1 @ [Sqlite3_column_count (stmt cmd)])"
    and "h2 = h1 @ [Sqlite3_column_count (stmt cmd), Malloc n]"
  shows "evaluate_command P cmd c w =
           (if rc P h1 = SQLITE_DONE then (EAtom ''$done'', w\<lparr>hist := h1\<rparr>)
            else if rc P h1 = SQLITE_BUSY then (EAtom ''$busy'', w\<lparr>hist := h1\<rparr>)
            else if rc P h1 = SQLITE_ROW
            then (fst (make_row P (stmt cmd) h1), w\<lparr>hist := snd (make_row P (stmt cmd) h1)\<rparr>)
            else (ETuple [EAtom ''error'', EAtom ''unexpected_return_value''], w\<lparr>hist := h1\<rparr>))
         \<and> filter is_step (hist (snd (evaluate_command P cmd c w)))
             = filter is_step (hist w) @ [Sqlite3_step (stmt cmd)]
         \<and> (if ptr P h2 = None
            then make_row P (stmt cmd) h1 = (ETuple [EAtom ''error'', EAtom ''no_memory''], h2)
            else (\<exists>cells hs. make_row P (stmt cmd) h1 = (ETuple cells, hs (nat n))
                    \<and> length cells = nat n \<and> hs 0 = h2
                    \<and> (\<forall>j < nat n. column_read P (stmt cmd) j (hs j) (hs (Suc j)) (cells ! j))))"
proof -
  have ev: "evaluate_command P cmd c w = lift_stmt (do_step P (stmt cmd)) w"
    using assms(1) by (simp add: evaluate_command_def)
  obtain t h where d: "do_step P (stmt cmd) (hist w) = (t, h)"
    by (cases "do_step P (stmt cmd) (hist w)")
  have a: "(t, h) =
           (if rc P h1 = SQLITE_DONE then (EAtom ''$done'', h1)
            else if rc P h1 = SQLITE_BUSY then (EAtom ''$busy'', h1)
            else if rc P h1 = SQLITE_ROW then make_row P (stmt cmd) h1
            else (ETuple [EAtom ''error'', EAtom ''unexpected_return_value''], h1))"
    using d assms(2)
    by (auto simp add: do_step_def Let_def make_atom_def make_error_tuple_def
        enif_make_tuple2_def split: if_splits)
  have 1: "evaluate_command P cmd c w =
           (if rc P h1 = SQLITE_DONE then (EAtom ''$done'', w\<lparr>hist := h1\<rparr>)
            else if rc P h1 = SQLITE_BUSY then (EAtom ''$busy'', w\<lparr>hist := h1\<rparr>)
            else if rc P h1 = SQLITE_ROW
            then (fst (make_row P (stmt cmd) h1), w\<lparr>hist := snd (make_row P (stmt cmd) h1)\<rparr>)
            else (ETuple [EAtom ''error'', EAtom ''unexpected_return_value''], w\<lparr>hist := h1\<rparr>))"
    using a d unfolding ev
    by (cases "make_row P (stmt cmd) h1") (auto simp add: lift_stmt_def split: if_splits)
  have 2: "filter is_step (hist (snd (evaluate_command P cmd c w)))
             = filter is_step (hist w) @ [Sqlite3_step (stmt cmd)]"
    using do_step_steps [of P "stmt cmd" "hist w"] d unfolding ev by (simp add: lift_stmt_def)
  have 3: "if ptr P h2 = None
            then make_row P (stmt cmd) h1 = (ETuple [EAtom ''error'', EAtom ''no_memory''], h2)
            else (\<exists>cells hs. make_row P (stmt cmd) h1 = (ETuple cells, hs (nat n))
                    \<and> length cells = nat n \<and> hs 0 = h2
                    \<and> (\<forall>j < nat n. column_read P (stmt cmd) j (hs j) (hs (Suc j)) (cells ! j)))"
    using make_row_columns [OF assms(4,3)] .
  show ?thesis by (intro conjI) (fact 1 2 3)+
qed

theorem step_reply_witness:
  "fst (evaluate_command row_platform (fresh_command\<lparr>type := cmd_step, stmt := Some 1\<rparr>) 0 world0)
     = ETuple [EInt 7]
   \<and> fst (evaluate_command (const_platform 101)
            (fresh_command\<lparr>type := cmd_step, stmt := Some 1\<rparr>) 0 world0) = EAtom ''$done''
   \<and> fst (evaluate_command (const_platform 5)
            (fresh_command\<lparr>type := cmd_step, stmt := Some 1\<rparr>) 0 world0) = EAtom ''$busy''
   \<and> fst (evaluate_command (const_platform 1)
            (fresh_command\<lparr>type := cmd_step, stmt := Some 1\<rparr>) 0 world0)
       = ETuple [EAtom ''error'', EAtom ''unexpected_return_value'']"
proof -
  let ?cmd = "fresh_command\<lparr>type := cmd_step, stmt := Some 1\<rparr>"
  have t: "type ?cmd = cmd_step" by simp
  have s: "stmt ?cmd = Some 1" by (simp add: fresh_command_def)
  have 1: "fst (evaluate_command row_platform ?cmd 0 world0) = ETuple [EInt 7]"
  proof -
    let ?h1 = "[Sqlite3_step (stmt ?cmd)]"
    let ?h2 = "?h1 @ [Sqlite3_column_count (stmt ?cmd), Malloc 1]"
    have hw: "hist world0 = []" by (simp add: world0_def)
    have r: "rc row_platform ?h1 = SQLITE_ROW" "SQLITE_ROW \<noteq> SQLITE_DONE"
      "SQLITE_ROW \<noteq> SQLITE_BUSY"
      by (simp_all add: row_platform_def row_rc_def SQLITE_ROW_def SQLITE_DONE_def
          SQLITE_BUSY_def)
    have n: "rc row_platform (?h1 @ [Sqlite3_column_count (stmt ?cmd)]) = 1"
      by (simp add: row_platform_def row_rc_def)
    have p: "ptr row_platform ?h2 \<noteq> None" by (simp add: row_platform_def)
    note sr = step_reply [OF t refl refl refl, where P = row_platform and c = 0 and w = world0,
        unfolded hw append_Nil]
    from sr [THEN conjunct1]
    have e: "fst (evaluate_command row_platform ?cmd 0 world0)
               = fst (make_row row_platform (stmt ?cmd) ?h1)"
      by (simp only: r if_False if_True fst_conv simp_thms)
    from sr [THEN conjunct2, THEN conjunct2, unfolded n] p
    obtain cells hs
      where m: "make_row row_platform (stmt ?cmd) ?h1 = (ETuple cells, hs (nat 1))"
        and l: "length cells = nat 1" and h0: "hs 0 = ?h2"
        and cr: "\<forall>j < nat 1. column_read row_platform (stmt ?cmd) j (hs j) (hs (Suc j)) (cells ! j)"
      by (simp only: if_False) blast
    from cr have "column_read row_platform (stmt ?cmd) 0 (hs 0) (hs (Suc 0)) (cells ! 0)"
      by simp
    then have "cells ! 0 = EInt 7"
      unfolding h0
      by (simp add: column_read_def Let_def row_platform_def row_rc_def SQLITE_INTEGER_def)
    then have "cells = [EInt 7]" using l by (cases cells) auto
    then show ?thesis using e m by simp
  qed
  have 2: "fst (evaluate_command (const_platform 101) ?cmd 0 world0) = EAtom ''$done''"
    using step_reply [OF t refl refl refl, where P = "const_platform 101" and c = 0 and w = world0]
    by (simp add: const_platform_def SQLITE_DONE_def)
  have 3: "fst (evaluate_command (const_platform 5) ?cmd 0 world0) = EAtom ''$busy''"
    using step_reply [OF t refl refl refl, where P = "const_platform 5" and c = 0 and w = world0]
    by (simp add: const_platform_def SQLITE_DONE_def SQLITE_BUSY_def)
  have 4: "fst (evaluate_command (const_platform 1) ?cmd 0 world0)
             = ETuple [EAtom ''error'', EAtom ''unexpected_return_value'']"
    using step_reply [OF t refl refl refl, where P = "const_platform 1" and c = 0 and w = world0]
    by (simp add: const_platform_def SQLITE_DONE_def SQLITE_BUSY_def SQLITE_ROW_def)
  show ?thesis using 1 2 3 4 by simp
qed

subsection \<open>Opening the engine\<close>

text \<open>
  C8. An open command whose path is accepted calls \<^verbatim>\<open>sqlite3_open\<close>, which stores a
  handle in the connection. When the call fails, the handler asks the engine for its
  message for that handle, closes that handle, sets the field of the connection to
  \<^verbatim>\<open>NULL\<close>, and answers with the error tuple of the message. When the call succeeds,
  the field holds the handle the engine stored, nothing more is called, and the answer
  is \<open>ok\<close>.
\<close>

theorem open_reply:
  assumes "type cmd = cmd_open"
    and "enif_get_string (arg cmd) MAX_PATHNAME = (sz, filename)"
    and "0 < sz mod 2 ^ 32"
    and "h1 = hist w @ [Sqlite3_open (c_string filename)]"
    and "h2 = h1 @ [Sqlite3_errmsg (ptr P h1)]"
    and "evaluate_command P cmd c w = (answer, w')"
  shows "if rc P h1 \<noteq> SQLITE_OK
         then answer = ETuple [EAtom ''error'',
                         ETuple [EAtom ''sqlite3_error'', enif_make_string (c_string (text_of P h2))]]
              \<and> hist w' = h2 @ [Sqlite3_close (ptr P h1)]
              \<and> db (conns w' c) = None
         else answer = EAtom ''ok'' \<and> hist w' = h1 \<and> db (conns w' c) = ptr P h1"
proof -
  have "do_open P c (arg cmd) w = (answer, w')"
    using assms(1,6) by (simp add: evaluate_command_def)
  then show ?thesis
    using assms(2-5)
    by (auto simp add: do_open_def Let_def log_call_def set_db_def make_atom_def
        make_sqlite3_error_tuple_def enif_make_tuple2_def)
qed

theorem open_reply_witness:
  "fst (evaluate_command (const_platform 14)
     (fresh_command\<lparr>type := cmd_open, arg := ECons (EInt 116) ENil\<rparr>) 0 world0)
   = ETuple [EAtom ''error'',
        ETuple [EAtom ''sqlite3_error'', enif_make_string ''engine says no'']]
   \<and> hist (snd (evaluate_command (const_platform 14)
     (fresh_command\<lparr>type := cmd_open, arg := ECons (EInt 116) ENil\<rparr>) 0 world0))
     = [Sqlite3_open ''t'', Sqlite3_errmsg (Some 1), Sqlite3_close (Some 1)]
   \<and> db (conns (snd (evaluate_command (const_platform 14)
     (fresh_command\<lparr>type := cmd_open, arg := ECons (EInt 116) ENil\<rparr>) 0 world0)) 0) = None
   \<and> evaluate_command (const_platform 0)
     (fresh_command\<lparr>type := cmd_open, arg := ECons (EInt 116) ENil\<rparr>) 0 world0
     = (EAtom ''ok'', snd (evaluate_command (const_platform 0)
     (fresh_command\<lparr>type := cmd_open, arg := ECons (EInt 116) ENil\<rparr>) 0 world0))
   \<and> db (conns (snd (evaluate_command (const_platform 0)
     (fresh_command\<lparr>type := cmd_open, arg := ECons (EInt 116) ENil\<rparr>) 0 world0)) 0) = Some 1"
proof -
  let ?cmd = "fresh_command\<lparr>type := cmd_open, arg := ECons (EInt 116) ENil\<rparr>"
  have t: "type ?cmd = cmd_open" by simp
  have g: "enif_get_string (arg ?cmd) MAX_PATHNAME = (2, ''t'')"
    by (simp add: enif_get_string_def MAX_PATHNAME_def is_byte_def byte_of_def char_of_def)
  have m: "(0::int) < 2 mod 2 ^ 32" by simp
  have cs: "c_string ''t'' = ''t''" "c_string ''engine says no'' = ''engine says no''"
    by (simp_all add: c_string_def NUL_def)
  obtain a1 w1 where e1: "evaluate_command (const_platform 14) ?cmd 0 world0 = (a1, w1)"
    by (cases "evaluate_command (const_platform 14) ?cmd 0 world0")
  obtain a2 w2 where e2: "evaluate_command (const_platform 0) ?cmd 0 world0 = (a2, w2)"
    by (cases "evaluate_command (const_platform 0) ?cmd 0 world0")
  have 1: "a1 = ETuple [EAtom ''error'',
        ETuple [EAtom ''sqlite3_error'', enif_make_string ''engine says no'']]
      \<and> hist w1 = [Sqlite3_open ''t'', Sqlite3_errmsg (Some 1), Sqlite3_close (Some 1)]
      \<and> db (conns w1 0) = None"
    using open_reply [OF t g m refl refl e1]
    by (simp add: cs const_platform_def world0_def SQLITE_OK_def)
  have 2: "a2 = EAtom ''ok'' \<and> db (conns w2 0) = Some 1"
    using open_reply [OF t g m refl refl e2]
    by (simp add: cs const_platform_def world0_def SQLITE_OK_def)
  show ?thesis using 1 2 unfolding e1 e2 by simp
qed

subsection \<open>Preparing a statement against a busy engine\<close>

lemma do_prepare_loop_conns:
  "conns (snd (do_prepare_loop P dbh bin s retries w)) = conns w"
proof (induction P dbh bin s retries w rule: do_prepare_loop.induct)
  case (1 P dbh bin s retries w)
  show ?case
  proof (cases "rc P (hist w @ [Sqlite3_prepare_v2 dbh bin]) = SQLITE_BUSY \<and> retries < 100")
    case True
    then show ?thesis
      using "1.IH" [OF refl refl refl refl]
      by (subst do_prepare_loop.simps)
        (simp add: Let_def log_call_def set_statement_def)
  next
    case False
    then show ?thesis
      by (subst do_prepare_loop.simps)
        (auto simp add: Let_def log_call_def set_statement_def)
  qed
qed

lemma is_prepare_simps [simp]:
  "is_prepare (Sqlite3_prepare_v2 d b)" "\<not> is_prepare (Usleep n)"
  "\<not> is_prepare Enif_alloc_resource" "\<not> is_prepare (Sqlite3_errmsg d)"
  "\<not> is_prepare (Enif_keep_resource c)" "\<not> is_prepare (Enif_release_resource c)"
  by (simp_all add: is_prepare_def)

lemma do_prepare_loop_pass:
  "hist (log_call (Usleep (int retries * 100))
           (set_statement s v (log_call (Sqlite3_prepare_v2 dbh bin) w)))
     = hist w @ attempt dbh bin retries"
  by (simp add: log_call_def set_statement_def attempt_def)

lemma do_prepare_loop_count:
  "retries \<le> 100 \<Longrightarrow>
   length (filter is_prepare (hist (snd (do_prepare_loop P dbh bin s retries w)))) + retries
     \<le> length (filter is_prepare (hist w)) + 101"
proof (induction P dbh bin s retries w rule: do_prepare_loop.induct)
  case (1 P dbh bin s retries w)
  let ?w1 = "log_call (Sqlite3_prepare_v2 dbh bin) w"
  let ?w3 = "log_call (Usleep (int retries * 100)) (set_statement s (ptr P (hist ?w1)) ?w1)"
  have h3: "filter is_prepare (hist ?w3) = filter is_prepare (hist w) @ [Sqlite3_prepare_v2 dbh bin]"
    by (simp add: do_prepare_loop_pass attempt_def)
  show ?case
  proof (cases "rc P (hist ?w1) = SQLITE_BUSY \<and> retries < 100")
    case True
    then have le: "retries + 1 \<le> 100" by simp
    have step: "do_prepare_loop P dbh bin s retries w = do_prepare_loop P dbh bin s (retries + 1) ?w3"
      using True by (subst do_prepare_loop.simps) (simp add: Let_def)
    have "length (filter is_prepare (hist (snd (do_prepare_loop P dbh bin s (retries + 1) ?w3))))
            + (retries + 1) \<le> length (filter is_prepare (hist ?w3)) + 101"
      using "1.IH" [OF refl refl refl refl True le] .
    then show ?thesis unfolding step h3 by simp
  next
    case False
    then have stop: "do_prepare_loop P dbh bin s retries w = (rc P (hist ?w1), ?w3)"
      by (subst do_prepare_loop.simps) (auto simp add: Let_def)
    show ?thesis unfolding stop using "1.prems" by (simp add: h3)
  qed
qed

lemma do_prepare_loop_busy:
  assumes "\<forall>h. rc P (h @ [Sqlite3_prepare_v2 dbh bin]) = SQLITE_BUSY"
  shows "retries \<le> 100 \<Longrightarrow>
         fst (do_prepare_loop P dbh bin s retries w) = SQLITE_BUSY
         \<and> hist (snd (do_prepare_loop P dbh bin s retries w))
             = hist w @ concat (map (attempt dbh bin) [retries ..< 101])"
  using assms
proof (induction P dbh bin s retries w rule: do_prepare_loop.induct)
  case (1 P dbh bin s retries w)
  let ?w1 = "log_call (Sqlite3_prepare_v2 dbh bin) w"
  let ?w3 = "log_call (Usleep (int retries * 100)) (set_statement s (ptr P (hist ?w1)) ?w1)"
  have busy: "rc P (hist ?w1) = SQLITE_BUSY"
    using "1.prems"(2) by (simp add: log_call_def)
  have h3: "hist ?w3 = hist w @ attempt dbh bin retries"
    by (rule do_prepare_loop_pass)
  show ?case
  proof (cases "retries < 100")
    case True
    then have u: "[retries ..< 101] = retries # [retries + 1 ..< 101]"
      by (simp add: upt_conv_Cons)
    from True have le: "retries + 1 \<le> 100" by simp
    have step: "do_prepare_loop P dbh bin s retries w = do_prepare_loop P dbh bin s (retries + 1) ?w3"
      using True busy by (subst do_prepare_loop.simps) (simp add: Let_def)
    have "fst (do_prepare_loop P dbh bin s (retries + 1) ?w3) = SQLITE_BUSY
         \<and> hist (snd (do_prepare_loop P dbh bin s (retries + 1) ?w3))
             = hist ?w3 @ concat (map (attempt dbh bin) [retries + 1 ..< 101])"
      using "1.IH" [OF refl refl refl refl _ le "1.prems"(2)] True busy by blast
    then show ?thesis unfolding step h3 u by simp
  next
    case False
    with "1.prems"(1) have r: "retries = 100" by simp
    have u: "[retries ..< 101] = [retries]" by (simp add: r upt_conv_Cons)
    have stop: "do_prepare_loop P dbh bin s retries w = (rc P (hist ?w1), ?w3)"
      using False by (subst do_prepare_loop.simps) (simp add: Let_def)
    show ?thesis unfolding stop u using busy h3 by simp
  qed
qed

text \<open>
  C5. A prepare command calls \<^verbatim>\<open>sqlite3_prepare_v2\<close> at most 101 times, whatever the
  engine answers: the first attempt and at most 100 retries. Against an engine that
  answers \<^verbatim>\<open>SQLITE_BUSY\<close> to every attempt, the log of the command is the allocation
  of the statement, then 101 attempts, the attempt number \<open>k\<close> (from 0) followed by a
  sleep of \<open>100 * k\<close> microseconds, then the request for the message of the engine; the
  answer is the error tuple of that message.
\<close>

theorem prepare_retries:
  assumes "type cmd = cmd_prepare"
    and "dbh = db (conns w c)"
    and "bin = inspected P (arg cmd)"
    and "evaluate_command P cmd c w = (answer, w')"
  shows "length (filter is_prepare (hist w')) \<le> length (filter is_prepare (hist w)) + 101
         \<and> (ptr P (hist w @ [Enif_alloc_resource]) = None
            \<or> (\<exists>h. rc P (h @ [Sqlite3_prepare_v2 dbh bin]) \<noteq> SQLITE_BUSY)
            \<or> hist w' = hist w @ [Enif_alloc_resource]
                  @ concat (map (attempt dbh bin) [0 ..< 101]) @ [Sqlite3_errmsg dbh]
               \<and> answer = ETuple [EAtom ''error'', ETuple [EAtom ''sqlite3_error'',
                            enif_make_string (c_string (text_of P (hist w')))]])"
proof -
  let ?w0 = "log_call Enif_alloc_resource w"
  have ev: "do_prepare P c (arg cmd) w = (answer, w')"
    using assms(1,4) by (simp add: evaluate_command_def)
  have h0: "hist ?w0 = hist w @ [Enif_alloc_resource]" "conns ?w0 = conns w"
    by (simp_all add: log_call_def)
  show ?thesis
  proof (cases "ptr P (hist w @ [Enif_alloc_resource])")
    case None
    then have "w' = ?w0" using ev by (simp add: do_prepare_def Let_def h0)
    then show ?thesis using None by (simp add: h0)
  next
    case (Some s)
    obtain r w1 where l: "do_prepare_loop P dbh bin s 0 ?w0 = (r, w1)"
      by (cases "do_prepare_loop P dbh bin s 0 ?w0")
    have c1: "conns w1 = conns w"
      using do_prepare_loop_conns [of P dbh bin s 0 ?w0] l h0 by simp
    have n1: "length (filter is_prepare (hist w1)) \<le> length (filter is_prepare (hist w)) + 101"
      using do_prepare_loop_count [of 0 P dbh bin s ?w0] l h0 by simp
    have w': "w' = (if r \<noteq> SQLITE_OK then log_call (Sqlite3_errmsg dbh) w1
                    else log_call (Enif_release_resource s)
                           (set_connection s (Some c) (log_call (Enif_keep_resource c) w1)))"
      and a: "r \<noteq> SQLITE_OK \<Longrightarrow> answer = make_sqlite3_error_tuple (c_string (text_of P (hist w')))"
      using ev Some l c1 assms(2,3)
      by (auto simp add: do_prepare_def Let_def h0 split: if_splits)
    have count: "length (filter is_prepare (hist w')) \<le> length (filter is_prepare (hist w)) + 101"
      using n1 w' by (simp add: log_call_def set_connection_def)
    have busy: "hist w' = hist w @ [Enif_alloc_resource]
                  @ concat (map (attempt dbh bin) [0 ..< 101]) @ [Sqlite3_errmsg dbh]
               \<and> answer = ETuple [EAtom ''error'', ETuple [EAtom ''sqlite3_error'',
                            enif_make_string (c_string (text_of P (hist w')))]]"
      if b: "\<forall>h. rc P (h @ [Sqlite3_prepare_v2 dbh bin]) = SQLITE_BUSY"
    proof -
      have "r = SQLITE_BUSY \<and> hist w1 = hist ?w0 @ concat (map (attempt dbh bin) [0 ..< 101])"
        using do_prepare_loop_busy [OF b, of 0 s ?w0] l by simp
      then have r: "r \<noteq> SQLITE_OK"
        and h1: "hist w1 = hist w @ [Enif_alloc_resource] @ concat (map (attempt dbh bin) [0 ..< 101])"
        by (simp_all add: h0 SQLITE_BUSY_def SQLITE_OK_def)
      have "hist w' = hist w1 @ [Sqlite3_errmsg dbh]" using w' r by (simp add: log_call_def)
      then show ?thesis
        using h1 a [OF r]
        by (simp add: make_sqlite3_error_tuple_def make_atom_def enif_make_tuple2_def)
    qed
    show ?thesis using count busy by blast
  qed
qed

lemma attempts_prepares:
  "filter is_prepare (concat (map (attempt dbh bin) ks))
     = replicate (length ks) (Sqlite3_prepare_v2 dbh bin)"
  by (induction ks) (simp_all add: attempt_def)

theorem prepare_retries_witness:
  "fst (evaluate_command (const_platform 5)
          (fresh_command\<lparr>type := cmd_prepare, arg := EBinary ''x''\<rparr>) 0 world0)
     = ETuple [EAtom ''error'', ETuple [EAtom ''sqlite3_error'', enif_make_string ''engine says no'']]
   \<and> filter is_prepare (hist (snd (evaluate_command (const_platform 5)
          (fresh_command\<lparr>type := cmd_prepare, arg := EBinary ''x''\<rparr>) 0 world0)))
     = replicate 101 (Sqlite3_prepare_v2 None ''x'')
   \<and> take 7 (hist (snd (evaluate_command (const_platform 5)
          (fresh_command\<lparr>type := cmd_prepare, arg := EBinary ''x''\<rparr>) 0 world0)))
     = [Enif_alloc_resource,
        Sqlite3_prepare_v2 None ''x'', Usleep 0,
        Sqlite3_prepare_v2 None ''x'', Usleep 100,
        Sqlite3_prepare_v2 None ''x'', Usleep 200]"
proof -
  let ?cmd = "fresh_command\<lparr>type := cmd_prepare, arg := EBinary ''x''\<rparr>"
  have t: "type ?cmd = cmd_prepare" by simp
  obtain a w' where e: "evaluate_command (const_platform 5) ?cmd 0 world0 = (a, w')"
    by (cases "evaluate_command (const_platform 5) ?cmd 0 world0")
  have d: "db (conns world0 0) = None" by (simp add: world0_def closed_connection_def)
  have b: "inspected (const_platform 5) (arg ?cmd) = ''x''" by (simp add: inspected_def)
  have cs: "c_string ''engine says no'' = ''engine says no''" by (simp add: c_string_def NUL_def)
  have u: "[0 ..< 101] = 0 # 1 # 2 # [3 ..< 101]" by (simp add: upt_conv_Cons)
  have "hist w' = [Enif_alloc_resource]
                  @ concat (map (attempt None ''x'') [0 ..< 101]) @ [Sqlite3_errmsg None]
        \<and> a = ETuple [EAtom ''error'', ETuple [EAtom ''sqlite3_error'',
                            enif_make_string ''engine says no'']]"
    using prepare_retries [OF t d [symmetric] b [symmetric] e]
    by (simp add: const_platform_def SQLITE_BUSY_def world0_def cs)
  then have h: "hist w' = [Enif_alloc_resource]
                  @ concat (map (attempt None ''x'') [0 ..< 101]) @ [Sqlite3_errmsg None]"
    and a: "a = ETuple [EAtom ''error'', ETuple [EAtom ''sqlite3_error'',
                            enif_make_string ''engine says no'']]"
    by simp_all
  have f: "filter is_prepare (hist w') = replicate 101 (Sqlite3_prepare_v2 None ''x'')"
    unfolding h by (simp add: attempts_prepares)
  have k: "take 7 (hist w') = [Enif_alloc_resource,
        Sqlite3_prepare_v2 None ''x'', Usleep 0,
        Sqlite3_prepare_v2 None ''x'', Usleep 100,
        Sqlite3_prepare_v2 None ''x'', Usleep 200]"
    unfolding h u by (simp add: attempt_def)
  show ?thesis unfolding e using a f k by simp
qed

subsection \<open>Binding one value\<close>

lemma bind_cell_EInt:
  "bind_cell P (EInt n) st i h =
     (if - (2 ^ 31) \<le> n \<and> n < 2 ^ 31
      then (rc P (h @ [Sqlite3_bind_int st i n]), h @ [Sqlite3_bind_int st i n])
      else (- 1, h))"
  by (simp add: bind_cell_def enif_get_int_def enif_get_double_def enif_get_atom_def Let_def)

lemma bind_cell_EDouble:
  "bind_cell P (EDouble d) st i h
     = (rc P (h @ [Sqlite3_bind_double st i d]), h @ [Sqlite3_bind_double st i d])"
  by (simp add: bind_cell_def enif_get_int_def enif_get_double_def Let_def)

lemma bind_cell_EAtom:
  "bind_cell P (EAtom a) st i h =
     (if MAX_ATOM_LENGTH < length a then (- 1, h)
      else if c_string a = ''undefined''
      then (rc P (h @ [Sqlite3_bind_null st i]), h @ [Sqlite3_bind_null st i])
      else (rc P (h @ [Sqlite3_bind_text st i (c_string a)]),
            h @ [Sqlite3_bind_text st i (c_string a)]))"
  by (simp add: bind_cell_def enif_get_int_def enif_get_double_def enif_get_atom_def Let_def
      not_less)

lemma bind_cell_other:
  assumes "enif_get_int cell = None" "enif_get_double cell = None"
    "enif_get_atom cell (MAX_ATOM_LENGTH + 1) = None"
  shows "bind_cell P cell st i h =
     (case iolist_bytes cell of
        None \<Rightarrow> (- 1, h)
      | Some b \<Rightarrow>
          (if enif_is_list cell \<and> strlen (b @ after_binary P) = length b
           then (rc P (h @ [Sqlite3_bind_text st i b]), h @ [Sqlite3_bind_text st i b])
           else (rc P (h @ [Sqlite3_bind_blob st i b]), h @ [Sqlite3_bind_blob st i b])))"
  using assms by (simp add: bind_cell_def Let_def split: option.splits)

lemma strlen_no_NUL:
  "strlen (b @ rest) = length b \<Longrightarrow> NUL \<notin> set b"
  unfolding strlen_def c_string_def
  by (induction b) (auto split: if_splits)

lemma not_scalar:
  assumes "\<And>n. cell \<noteq> EInt n" "\<And>d. cell \<noteq> EDouble d" "\<And>a. cell \<noteq> EAtom a"
  shows "enif_get_int cell = None" "enif_get_double cell = None" "enif_get_atom cell k = None"
  using assms
  by (cases cell; simp add: enif_get_int_def enif_get_double_def enif_get_atom_def)+

lemma bind_call_other:
  assumes "\<And>n. cell \<noteq> EInt n" "\<And>d. cell \<noteq> EDouble d" "\<And>a. cell \<noteq> EAtom a"
  shows "bind_call P st i cell =
     (case iolist_bytes cell of
        None \<Rightarrow> None
      | Some b \<Rightarrow>
          (if enif_is_list cell \<and> strlen (b @ after_binary P) = length b
           then Some (Sqlite3_bind_text st i b)
           else Some (Sqlite3_bind_blob st i b)))"
  using assms by (cases cell; hypsubst; simp add: bind_call_def)

lemma bind_cell_bind_call:
  "bind_cell P cell st i h =
     (case bind_call P st i cell of
        None \<Rightarrow> (- 1, h)
      | Some c \<Rightarrow> (rc P (h @ [c]), h @ [c]))"
proof (cases "(\<exists>n. cell = EInt n) \<or> (\<exists>d. cell = EDouble d) \<or> (\<exists>a. cell = EAtom a)")
  case True
  then consider n where "cell = EInt n" | d where "cell = EDouble d" | a where "cell = EAtom a"
    by blast
  then show ?thesis
  proof cases
    case 1
    then show ?thesis by (simp add: bind_cell_EInt bind_call_def)
  next
    case 2
    then show ?thesis by (simp add: bind_cell_EDouble bind_call_def)
  next
    case 3
    then show ?thesis by (simp add: bind_cell_EAtom bind_call_def)
  qed
next
  case False
  then have n: "\<And>n. cell \<noteq> EInt n" "\<And>d. cell \<noteq> EDouble d" "\<And>a. cell \<noteq> EAtom a"
    by blast+
  show ?thesis
    unfolding bind_cell_other [OF not_scalar [OF n]] bind_call_other [OF n]
    by (simp split: option.splits)
qed

lemma strlen_exact:
  assumes "NUL \<notin> set b" "take 1 rest = [NUL]"
  shows "strlen (b @ rest) = length b"
proof -
  from assms(2) obtain tl where "rest = NUL # tl" by (cases rest) simp_all
  then have "takeWhile (\<lambda>c. c \<noteq> NUL) rest = []" by simp
  moreover have "takeWhile (\<lambda>c. c \<noteq> NUL) (b @ rest) = b @ takeWhile (\<lambda>c. c \<noteq> NUL) rest"
    using assms(1) by (intro takeWhile_append2) auto
  ultimately show ?thesis by (simp add: strlen_def c_string_def)
qed

lemma c_string_no_NUL: "NUL \<notin> set a \<Longrightarrow> c_string a = a"
  unfolding c_string_def by (induction a) auto

text \<open>
  C10, as amended. \<^verbatim>\<open>bind_cell\<close> tries the shapes in the order integer, double,
  atom, iolist or binary. An integer binds as an engine integer when it fits a C
  \<^verbatim>\<open>int\<close>, and is the failure -1 otherwise. A double binds as a float. An atom (a name
  of at most 255 bytes) binds as NULL when its name, read up to its first NUL, is
  \<open>undefined\<close>, and else as the text of its name up to its first NUL (the whole name
  when it has no NUL). A term that flattens to bytes binds as a blob when it is no list
  (a binary) or when its bytes contain a NUL. The bytes of a list without NUL are bound
  as text or as a blob; which of the two is not said here. Every term that none of the
  four tests accepts, among them tuples, references, process identifiers and resources,
  is the failure -1, and nothing is bound.
\<close>

theorem bind_cell_shapes:
  "bind_cell P (EInt n) st i h =
     (if - (2 ^ 31) \<le> n \<and> n < 2 ^ 31
      then (rc P (h @ [Sqlite3_bind_int st i n]), h @ [Sqlite3_bind_int st i n])
      else (- 1, h))
   \<and> bind_cell P (EDouble d) st i h
       = (rc P (h @ [Sqlite3_bind_double st i d]), h @ [Sqlite3_bind_double st i d])
   \<and> (length a \<le> MAX_ATOM_LENGTH \<longrightarrow>
        bind_cell P (EAtom a) st i h =
          (if c_string a = ''undefined''
           then (rc P (h @ [Sqlite3_bind_null st i]), h @ [Sqlite3_bind_null st i])
           else (rc P (h @ [Sqlite3_bind_text st i (c_string a)]),
                 h @ [Sqlite3_bind_text st i (c_string a)])))
   \<and> (NUL \<notin> set a \<longrightarrow> c_string a = a)
   \<and> (iolist_bytes cell = Some b \<and> (NUL \<in> set b \<or> \<not> enif_is_list cell) \<longrightarrow>
        bind_cell P cell st i h
          = (rc P (h @ [Sqlite3_bind_blob st i b]), h @ [Sqlite3_bind_blob st i b]))
   \<and> (iolist_bytes cell = Some b \<and> enif_is_list cell \<and> NUL \<notin> set b \<longrightarrow>
        bind_cell P cell st i h
          = (rc P (h @ [Sqlite3_bind_text st i b]), h @ [Sqlite3_bind_text st i b])
        \<or> bind_cell P cell st i h
          = (rc P (h @ [Sqlite3_bind_blob st i b]), h @ [Sqlite3_bind_blob st i b]))
   \<and> (enif_get_int cell = None \<and> enif_get_double cell = None
        \<and> enif_get_atom cell (MAX_ATOM_LENGTH + 1) = None \<and> iolist_bytes cell = None \<longrightarrow>
        bind_cell P cell st i h = (- 1, h))
   \<and> bind_cell P (ETuple ts) st i h = (- 1, h)
   \<and> bind_cell P (ERef k) st i h = (- 1, h)
   \<and> bind_cell P (ELocalPid k) st i h = (- 1, h)
   \<and> bind_cell P (ERemotePid k) st i h = (- 1, h)
   \<and> bind_cell P (EResource r) st i h = (- 1, h)"
proof -
  have 1: "bind_cell P (EInt n) st i h =
     (if - (2 ^ 31) \<le> n \<and> n < 2 ^ 31
      then (rc P (h @ [Sqlite3_bind_int st i n]), h @ [Sqlite3_bind_int st i n])
      else (- 1, h))"
    by (rule bind_cell_EInt)
  have 2: "bind_cell P (EDouble d) st i h
       = (rc P (h @ [Sqlite3_bind_double st i d]), h @ [Sqlite3_bind_double st i d])"
    by (rule bind_cell_EDouble)
  have 3: "length a \<le> MAX_ATOM_LENGTH \<longrightarrow>
        bind_cell P (EAtom a) st i h =
          (if c_string a = ''undefined''
           then (rc P (h @ [Sqlite3_bind_null st i]), h @ [Sqlite3_bind_null st i])
           else (rc P (h @ [Sqlite3_bind_text st i (c_string a)]),
                 h @ [Sqlite3_bind_text st i (c_string a)]))"
    by (simp add: bind_cell_EAtom)
  have c3: "NUL \<notin> set a \<longrightarrow> c_string a = a" by (simp add: c_string_no_NUL)
  have other: "bind_cell P cell st i h =
          (if enif_is_list cell \<and> strlen (b @ after_binary P) = length b
           then (rc P (h @ [Sqlite3_bind_text st i b]), h @ [Sqlite3_bind_text st i b])
           else (rc P (h @ [Sqlite3_bind_blob st i b]), h @ [Sqlite3_bind_blob st i b]))"
    if b: "iolist_bytes cell = Some b"
  proof -
    from b have n: "\<And>n. cell \<noteq> EInt n" "\<And>d. cell \<noteq> EDouble d" "\<And>a. cell \<noteq> EAtom a"
      by auto
    show ?thesis unfolding bind_cell_other [OF not_scalar [OF n]] using b by simp
  qed
  have 4: "iolist_bytes cell = Some b \<and> (NUL \<in> set b \<or> \<not> enif_is_list cell) \<longrightarrow>
        bind_cell P cell st i h
          = (rc P (h @ [Sqlite3_bind_blob st i b]), h @ [Sqlite3_bind_blob st i b])"
    using other strlen_no_NUL [of b "after_binary P"] by auto
  have 5: "iolist_bytes cell = Some b \<and> enif_is_list cell \<and> NUL \<notin> set b \<longrightarrow>
        bind_cell P cell st i h
          = (rc P (h @ [Sqlite3_bind_text st i b]), h @ [Sqlite3_bind_text st i b])
        \<or> bind_cell P cell st i h
          = (rc P (h @ [Sqlite3_bind_blob st i b]), h @ [Sqlite3_bind_blob st i b])"
    using other by auto
  have 8: "enif_get_int cell = None \<and> enif_get_double cell = None
        \<and> enif_get_atom cell (MAX_ATOM_LENGTH + 1) = None \<and> iolist_bytes cell = None \<longrightarrow>
        bind_cell P cell st i h = (- 1, h)"
    by (simp add: bind_cell_other)
  have 9: "bind_cell P (ETuple ts) st i h = (- 1, h)"
    "bind_cell P (ERef k) st i h = (- 1, h)"
    "bind_cell P (ELocalPid k) st i h = (- 1, h)"
    "bind_cell P (ERemotePid k) st i h = (- 1, h)"
    "bind_cell P (EResource r) st i h = (- 1, h)"
    by (simp_all add: bind_cell_bind_call bind_call_def)
  show ?thesis by (intro conjI) (fact 1 2 3 c3 4 5 8 9)+
qed

theorem bind_cell_big_integer:
  "bind_cell row_platform (EInt 2147483648) (Some 1) 1 [] = (- 1, [])"
  by (simp add: bind_cell_EInt)

theorem bind_cell_shapes_witness:
  "bind_cell row_platform (EAtom ''undefined'') (Some 1) 1 []
     = (0, [Sqlite3_bind_null (Some 1) 1])
   \<and> bind_cell row_platform (EAtom ''abc'') (Some 1) 1 []
     = (0, [Sqlite3_bind_text (Some 1) 1 ''abc''])
   \<and> bind_cell row_platform (EBinary ''ab'') (Some 1) 1 []
     = (0, [Sqlite3_bind_blob (Some 1) 1 ''ab''])
   \<and> bind_cell row_platform (ECons (EInt 97) (ECons (EInt 0) ENil)) (Some 1) 1 []
     = (0, [Sqlite3_bind_blob (Some 1) 1 [CHR ''a'', CHR 0x00]])
   \<and> (bind_cell row_platform (ECons (EInt 97) (ECons (EInt 98) ENil)) (Some 1) 1 []
         = (0, [Sqlite3_bind_text (Some 1) 1 ''ab''])
       \<or> bind_cell row_platform (ECons (EInt 97) (ECons (EInt 98) ENil)) (Some 1) 1 []
         = (0, [Sqlite3_bind_blob (Some 1) 1 ''ab'']))
   \<and> bind_cell row_platform (ECons (ETuple []) ENil) (Some 1) 1 [] = (- 1, [])"
proof -
  have r: "rc row_platform [c] = row_rc [c]" for c by (simp add: row_platform_def)
  have z: "row_rc [Sqlite3_bind_null s i] = 0" "row_rc [Sqlite3_bind_text s i b] = 0"
    "row_rc [Sqlite3_bind_blob s i b] = 0" for s i b
    by (simp_all add: row_rc_def)
  have cs: "c_string ''undefined'' = ''undefined''" "c_string ''abc'' = ''abc''"
    by (simp_all add: c_string_def NUL_def)
  have ml: "length ''undefined'' \<le> MAX_ATOM_LENGTH" "length ''abc'' \<le> MAX_ATOM_LENGTH"
    by (simp_all add: MAX_ATOM_LENGTH_def)
  have 1: "bind_cell row_platform (EAtom ''undefined'') (Some 1) 1 []
     = (0, [Sqlite3_bind_null (Some 1) 1])"
    using bind_cell_shapes [where P = row_platform and a = "''undefined''" and st = "Some 1"
        and i = 1 and h = "[]", THEN conjunct2, THEN conjunct2, THEN conjunct1, THEN mp,
        OF ml(1)]
    by (simp add: cs r z)
  have 2: "bind_cell row_platform (EAtom ''abc'') (Some 1) 1 []
     = (0, [Sqlite3_bind_text (Some 1) 1 ''abc''])"
    using bind_cell_shapes [where P = row_platform and a = "''abc''" and st = "Some 1"
        and i = 1 and h = "[]", THEN conjunct2, THEN conjunct2, THEN conjunct1, THEN mp,
        OF ml(2)]
    by (simp add: cs r z)
  have l1: "iolist_bytes (EBinary ''ab'') = Some ''ab''
              \<and> (NUL \<in> set ''ab'' \<or> \<not> enif_is_list (EBinary ''ab''))"
    by (simp add: enif_is_list_def)
  have l2: "iolist_bytes (ECons (EInt 97) (ECons (EInt 0) ENil)) = Some [CHR ''a'', CHR 0x00]
              \<and> (NUL \<in> set [CHR ''a'', CHR 0x00]
                  \<or> \<not> enif_is_list (ECons (EInt 97) (ECons (EInt 0) ENil)))"
    by (simp add: char_of_def NUL_def)
  have l3: "iolist_bytes (ECons (EInt 97) (ECons (EInt 98) ENil)) = Some ''ab''
              \<and> enif_is_list (ECons (EInt 97) (ECons (EInt 98) ENil)) \<and> NUL \<notin> set ''ab''"
    by (simp add: char_of_def NUL_def enif_is_list_def)
  have 3: "bind_cell row_platform (EBinary ''ab'') (Some 1) 1 []
     = (0, [Sqlite3_bind_blob (Some 1) 1 ''ab''])"
    using bind_cell_shapes [where P = row_platform and b = "''ab''" and st = "Some 1"
        and cell = "EBinary ''ab''" and i = 1 and h = "[]",
        THEN conjunct2, THEN conjunct2, THEN conjunct2, THEN conjunct2, THEN conjunct1,
        THEN mp, OF l1]
    by (simp add: r z)
  have 4: "bind_cell row_platform (ECons (EInt 97) (ECons (EInt 0) ENil)) (Some 1) 1 []
     = (0, [Sqlite3_bind_blob (Some 1) 1 [CHR ''a'', CHR 0x00]])"
    using bind_cell_shapes [where P = row_platform and b = "[CHR ''a'', CHR 0x00]"
        and st = "Some 1"
        and cell = "ECons (EInt 97) (ECons (EInt 0) ENil)" and i = 1 and h = "[]",
        THEN conjunct2, THEN conjunct2, THEN conjunct2, THEN conjunct2, THEN conjunct1,
        THEN mp, OF l2]
    by (simp add: r z)
  have 5: "bind_cell row_platform (ECons (EInt 97) (ECons (EInt 98) ENil)) (Some 1) 1 []
         = (0, [Sqlite3_bind_text (Some 1) 1 ''ab''])
       \<or> bind_cell row_platform (ECons (EInt 97) (ECons (EInt 98) ENil)) (Some 1) 1 []
         = (0, [Sqlite3_bind_blob (Some 1) 1 ''ab''])"
    using bind_cell_shapes [where P = row_platform and b = "''ab''" and st = "Some 1"
        and cell = "ECons (EInt 97) (ECons (EInt 98) ENil)" and i = 1 and h = "[]",
        THEN conjunct2, THEN conjunct2, THEN conjunct2, THEN conjunct2, THEN conjunct2,
        THEN conjunct1, THEN mp, OF l3]
    by (simp add: r z)
  have g: "enif_get_int (ECons (ETuple []) ENil) = None \<and>
      enif_get_double (ECons (ETuple []) ENil) = None \<and>
      enif_get_atom (ECons (ETuple []) ENil) (MAX_ATOM_LENGTH + 1) = None \<and>
      iolist_bytes (ECons (ETuple []) ENil) = None"
    by (simp add: enif_get_int_def enif_get_double_def enif_get_atom_def)
  have 6: "bind_cell row_platform (ECons (ETuple []) ENil) (Some 1) 1 [] = (- 1, [])"
    using bind_cell_shapes [where P = row_platform and st = "Some 1"
        and cell = "ECons (ETuple []) ENil" and i = 1 and h = "[]",
        THEN conjunct2, THEN conjunct2, THEN conjunct2, THEN conjunct2, THEN conjunct2,
        THEN conjunct2, THEN conjunct1, THEN mp, OF g] .
  show ?thesis by (intro conjI) (fact 1 2 3 4 5 6)+
qed

subsection \<open>Binding a list of values\<close>

lemma bind_call_is_bind: "bind_call P st i v = Some c \<Longrightarrow> is_bind c"
  by (cases v) (auto simp add: bind_call_def is_bind_def split: if_splits option.splits)

lemma bound_calls_length: "length (bound_calls P st i vs) \<le> length vs"
  by (induction vs arbitrary: i) (simp_all split: option.splits)

lemma bound_calls_nth:
  "k < length (bound_calls P st i vs) \<Longrightarrow>
   bind_call P st (i + k + 1) (vs ! k) = Some (bound_calls P st i vs ! k)"
proof (induction vs arbitrary: i k)
  case Nil
  then show ?case by simp
next
  case (Cons v vs)
  then obtain c where c: "bind_call P st (i + 1) v = Some c"
    by (cases "bind_call P st (i + 1) v") simp_all
  show ?case
  proof (cases k)
    case 0
    then show ?thesis using c by simp
  next
    case (Suc j)
    then have "j < length (bound_calls P st (i + 1) vs)" using Cons.prems c by simp
    from Cons.IH [OF this] show ?thesis using c Suc by simp
  qed
qed

lemma bound_calls_stop:
  "length (bound_calls P st i vs) < length vs \<Longrightarrow>
   bind_call P st (i + length (bound_calls P st i vs) + 1)
     (vs ! length (bound_calls P st i vs)) = None"
proof (induction vs arbitrary: i)
  case Nil
  then show ?case by simp
next
  case (Cons v vs)
  show ?case
  proof (cases "bind_call P st (i + 1) v")
    case None
    then show ?thesis by simp
  next
    case (Some c)
    then have "length (bound_calls P st (i + 1) vs) < length vs" using Cons.prems by simp
    from Cons.IH [OF this] show ?thesis using Some by simp
  qed
qed

lemma do_bind_loop_accepted:
  assumes "\<forall>h' c. is_bind c \<longrightarrow> rc P (h' @ [c]) = SQLITE_OK"
  shows "do_bind_loop P dbh st i vs h =
           (if length (bound_calls P st i vs) = length vs then make_atom ''ok''
            else make_error_tuple ''wrong_type'',
            h @ bound_calls P st i vs)"
proof (induction vs arbitrary: i h)
  case Nil
  then show ?case by simp
next
  case (Cons v vs)
  show ?case
  proof (cases "bind_call P st (i + 1) v")
    case None
    then have "bind_cell P v st (i + 1) h = (- 1, h)" by (simp add: bind_cell_bind_call)
    then show ?thesis using None by simp
  next
    case (Some c)
    then have "rc P (h @ [c]) = SQLITE_OK" using assms bind_call_is_bind by blast
    then have "bind_cell P v st (i + 1) h = (SQLITE_OK, h @ [c])"
      using Some by (simp add: bind_cell_bind_call)
    then show ?thesis using Some Cons.IH [of "i + 1" "h @ [c]"] by (simp add: SQLITE_OK_def)
  qed
qed

lemma do_bind_loop_extends: "\<exists>ext. snd (do_bind_loop P dbh st i vs h) = h @ ext"
proof (induction vs arbitrary: i h)
  case Nil
  then show ?case by simp
next
  case (Cons v vs)
  obtain r h1 where b: "bind_cell P v st (i + 1) h = (r, h1)"
    by (cases "bind_cell P v st (i + 1) h")
  then have "\<exists>e. h1 = h @ e"
    by (auto simp add: bind_cell_bind_call split: option.splits)
  then obtain e where e: "h1 = h @ e" by blast
  from Cons.IH [of "i + 1" h1] obtain ext where "snd (do_bind_loop P dbh st (i + 1) vs h1) = h1 @ ext"
    by blast
  then show ?case using b e by (auto simp add: Let_def)
qed
lemma do_bind_loop_prefix:
  assumes "k \<le> length (bound_calls P st i vs)"
    and "\<forall>j < k. rc P (h @ take (Suc j) (bound_calls P st i vs)) = SQLITE_OK"
  shows "(k = length (bound_calls P st i vs) \<longrightarrow>
            do_bind_loop P dbh st i vs h =
              (if length (bound_calls P st i vs) = length vs then make_atom ''ok''
               else make_error_tuple ''wrong_type'',
               h @ bound_calls P st i vs))
         \<and> (k < length (bound_calls P st i vs)
              \<and> rc P (h @ take (Suc k) (bound_calls P st i vs)) \<noteq> SQLITE_OK \<longrightarrow>
            do_bind_loop P dbh st i vs h =
              (if rc P (h @ take (Suc k) (bound_calls P st i vs)) = - 1
               then make_error_tuple ''wrong_type''
               else make_sqlite3_error_tuple (c_string (text_of P
                      (h @ take (Suc k) (bound_calls P st i vs) @ [Sqlite3_errmsg dbh]))),
               h @ take (Suc k) (bound_calls P st i vs)
                 @ (if rc P (h @ take (Suc k) (bound_calls P st i vs)) = - 1 then []
                    else [Sqlite3_errmsg dbh])))"
  using assms
proof (induction vs arbitrary: i h k)
  case Nil
  then show ?case by simp
next
  case (Cons v vs)
  show ?case
  proof (cases "bind_call P st (i + 1) v")
    case None
    then have "bind_cell P v st (i + 1) h = (- 1, h)" by (simp add: bind_cell_bind_call)
    then show ?thesis using None by simp
  next
    case (Some c)
    have bc: "bound_calls P st i (v # vs) = c # bound_calls P st (i + 1) vs"
      using Some by simp
    have cell: "bind_cell P v st (i + 1) h = (rc P (h @ [c]), h @ [c])"
      using Some by (simp add: bind_cell_bind_call)
    show ?thesis
    proof (cases k)
      case 0
      then show ?thesis unfolding bc using cell by (simp add: Let_def)
    next
      case (Suc k')
      have ok: "rc P (h @ [c]) = SQLITE_OK"
        using Cons.prems(2) [rule_format, of 0] Suc unfolding bc by simp
      have le: "k' \<le> length (bound_calls P st (i + 1) vs)"
        using Cons.prems(1) Suc unfolding bc by simp
      have all: "\<forall>j < k'. rc P ((h @ [c]) @ take (Suc j) (bound_calls P st (i + 1) vs))
                   = SQLITE_OK"
      proof (intro allI impI)
        fix j assume "j < k'"
        then have "Suc j < k" using Suc by simp
        from Cons.prems(2) [rule_format, OF this] show
          "rc P ((h @ [c]) @ take (Suc j) (bound_calls P st (i + 1) vs)) = SQLITE_OK"
          unfolding bc by simp
      qed
      have step: "do_bind_loop P dbh st i (v # vs) h
                    = do_bind_loop P dbh st (i + 1) vs (h @ [c])"
        using cell ok by (simp add: SQLITE_OK_def)
      show ?thesis
        unfolding step bc using Cons.IH [OF le all, of ] Suc by simp
    qed
  qed
qed

text \<open>
  C4. \<^verbatim>\<open>do_bind\<close> on a proper list of values first asks the engine for the number of
  parameters of the statement. When that number differs from the length of the list,
  the answer is the error \<open>args_wrong_length\<close> and that question is the only call: no
  reset, no bind. When the numbers agree, the next call is \<^verbatim>\<open>sqlite3_reset\<close>, before
  any bind. Then, on every engine, the calls that follow are the calls that bind the
  values in list order, value \<open>k\<close> (from 0) at position \<open>k + 1\<close>, one after the other
  for as long as the engine answers \<^verbatim>\<open>SQLITE_OK\<close>, and only up to the first value
  that no shape test accepts. If the engine accepted all of them the answer is \<open>ok\<close>
  when every value was bound and the error \<open>wrong_type\<close> when such a value stopped
  the loop. If the engine refused the bind of value \<open>k\<close>, no later value is bound: the
  answer is the error of the engine's message, asked for after that bind (or, should
  the engine have answered -1, the error \<open>wrong_type\<close>).
\<close>

theorem do_bind_arity_order:
  assumes "list_cells a = Some vs"
    and "h1 = h @ [Sqlite3_bind_parameter_count st]"
    and "0 \<le> rc P h1" and "rc P h1 < 2 ^ 32" and "length vs < 2 ^ 32"
    and "h0 = h1 @ [Sqlite3_reset st]"
    and "bc = bound_calls P st 0 vs"
  shows "(rc P h1 \<noteq> int (length vs) \<longrightarrow>
            do_bind P dbh st a h = (ETuple [EAtom ''error'', EAtom ''args_wrong_length''], h1))
         \<and> (rc P h1 = int (length vs) \<longrightarrow>
            (\<exists>ext. snd (do_bind P dbh st a h) = h1 @ Sqlite3_reset st # ext))
         \<and> (rc P h1 = int (length vs) \<and> k \<le> length bc
              \<and> (\<forall>j < k. rc P (h0 @ take (Suc j) bc) = SQLITE_OK) \<longrightarrow>
            (k = length bc \<longrightarrow>
               do_bind P dbh st a h =
                 (if length bc = length vs then EAtom ''ok''
                  else ETuple [EAtom ''error'', EAtom ''wrong_type''],
                  h0 @ bc))
            \<and> (k < length bc \<and> rc P (h0 @ take (Suc k) bc) \<noteq> SQLITE_OK \<longrightarrow>
               do_bind P dbh st a h =
                 (if rc P (h0 @ take (Suc k) bc) = - 1
                  then ETuple [EAtom ''error'', EAtom ''wrong_type'']
                  else ETuple [EAtom ''error'', ETuple [EAtom ''sqlite3_error'',
                         enif_make_string (c_string (text_of P
                           (h0 @ take (Suc k) bc @ [Sqlite3_errmsg dbh])))]],
                  h0 @ take (Suc k) bc
                    @ (if rc P (h0 @ take (Suc k) bc) = - 1 then []
                       else [Sqlite3_errmsg dbh]))))
         \<and> (\<forall>k < length bc. bind_call P st (k + 1) (vs ! k) = Some (bc ! k))
         \<and> (length bc < length vs \<longrightarrow> bind_call P st (length bc + 1) (vs ! length bc) = None)"
proof -
  have m1: "rc P h1 mod 2 ^ 32 = rc P h1" using assms(3,4) by simp
  have m2: "int (length vs) mod 2 ^ 32 = int (length vs)" using assms(5) by simp
  have d: "do_bind P dbh st a h =
             (if rc P h1 \<noteq> int (length vs) then (make_error_tuple ''args_wrong_length'', h1)
              else do_bind_loop P dbh st 0 vs h0)"
    using assms(1,2,6) m1 m2 by (simp add: do_bind_def Let_def)
  have 1: "rc P h1 \<noteq> int (length vs) \<longrightarrow>
            do_bind P dbh st a h = (ETuple [EAtom ''error'', EAtom ''args_wrong_length''], h1)"
    using d by (simp add: make_error_tuple_def make_atom_def enif_make_tuple2_def)
  have 2: "rc P h1 = int (length vs) \<longrightarrow>
            (\<exists>ext. snd (do_bind P dbh st a h) = h1 @ Sqlite3_reset st # ext)"
    using d do_bind_loop_extends [of P dbh st 0 vs h0] assms(6) by auto
  have 3: "rc P h1 = int (length vs) \<and> k \<le> length bc
              \<and> (\<forall>j < k. rc P (h0 @ take (Suc j) bc) = SQLITE_OK) \<longrightarrow>
            (k = length bc \<longrightarrow>
               do_bind P dbh st a h =
                 (if length bc = length vs then EAtom ''ok''
                  else ETuple [EAtom ''error'', EAtom ''wrong_type''],
                  h0 @ bc))
            \<and> (k < length bc \<and> rc P (h0 @ take (Suc k) bc) \<noteq> SQLITE_OK \<longrightarrow>
               do_bind P dbh st a h =
                 (if rc P (h0 @ take (Suc k) bc) = - 1
                  then ETuple [EAtom ''error'', EAtom ''wrong_type'']
                  else ETuple [EAtom ''error'', ETuple [EAtom ''sqlite3_error'',
                         enif_make_string (c_string (text_of P
                           (h0 @ take (Suc k) bc @ [Sqlite3_errmsg dbh])))]],
                  h0 @ take (Suc k) bc
                    @ (if rc P (h0 @ take (Suc k) bc) = - 1 then []
                       else [Sqlite3_errmsg dbh])))"
  proof
    assume e: "rc P h1 = int (length vs) \<and> k \<le> length bc
              \<and> (\<forall>j < k. rc P (h0 @ take (Suc j) bc) = SQLITE_OK)"
    then have le: "k \<le> length (bound_calls P st 0 vs)"
      and all: "\<forall>j < k. rc P (h0 @ take (Suc j) (bound_calls P st 0 vs)) = SQLITE_OK"
      unfolding assms(7) by simp_all
    have dd: "do_bind P dbh st a h = do_bind_loop P dbh st 0 vs h0" using d e by simp
    show "(k = length bc \<longrightarrow>
               do_bind P dbh st a h =
                 (if length bc = length vs then EAtom ''ok''
                  else ETuple [EAtom ''error'', EAtom ''wrong_type''],
                  h0 @ bc))
            \<and> (k < length bc \<and> rc P (h0 @ take (Suc k) bc) \<noteq> SQLITE_OK \<longrightarrow>
               do_bind P dbh st a h =
                 (if rc P (h0 @ take (Suc k) bc) = - 1
                  then ETuple [EAtom ''error'', EAtom ''wrong_type'']
                  else ETuple [EAtom ''error'', ETuple [EAtom ''sqlite3_error'',
                         enif_make_string (c_string (text_of P
                           (h0 @ take (Suc k) bc @ [Sqlite3_errmsg dbh])))]],
                  h0 @ take (Suc k) bc
                    @ (if rc P (h0 @ take (Suc k) bc) = - 1 then []
                       else [Sqlite3_errmsg dbh])))"
      unfolding dd assms(7)
      using do_bind_loop_prefix [OF le all, of dbh]
      by (simp add: make_error_tuple_def make_atom_def enif_make_tuple2_def
          make_sqlite3_error_tuple_def)
  qed
  have 4: "\<forall>k < length bc. bind_call P st (k + 1) (vs ! k) = Some (bc ! k)"
    unfolding assms(7) using bound_calls_nth [of _ P st 0 vs] by simp
  have 5: "length bc < length vs \<longrightarrow> bind_call P st (length bc + 1) (vs ! length bc) = None"
    unfolding assms(7) using bound_calls_stop [of P st 0 vs] by simp
  show ?thesis by (intro conjI) (fact 1 2 3 4 5)+
qed

theorem do_bind_arity_order_witness:
  "do_bind row_platform (Some 9) (Some 1) (ECons (EInt 1) ENil) []
     = (ETuple [EAtom ''error'', EAtom ''args_wrong_length''],
        [Sqlite3_bind_parameter_count (Some 1)])
   \<and> do_bind row_platform (Some 9) (Some 1) (ECons (EInt 1) (ECons (EAtom ''undefined'') ENil)) []
     = (EAtom ''ok'',
        [Sqlite3_bind_parameter_count (Some 1), Sqlite3_reset (Some 1),
         Sqlite3_bind_int (Some 1) 1 1, Sqlite3_bind_null (Some 1) 2])
   \<and> do_bind row_platform (Some 9) (Some 1) (ECons (EInt 1) (ECons (ETuple []) ENil)) []
     = (ETuple [EAtom ''error'', EAtom ''wrong_type''],
        [Sqlite3_bind_parameter_count (Some 1), Sqlite3_reset (Some 1),
         Sqlite3_bind_int (Some 1) 1 1])
   \<and> do_bind (const_platform 2) (Some 9) (Some 1)
        (ECons (EInt 1) (ECons (EAtom ''undefined'') ENil)) []
     = (ETuple [EAtom ''error'', ETuple [EAtom ''sqlite3_error'',
                  enif_make_string ''engine says no'']],
        [Sqlite3_bind_parameter_count (Some 1), Sqlite3_reset (Some 1),
         Sqlite3_bind_int (Some 1) 1 1, Sqlite3_errmsg (Some 9)])"
proof -
  let ?h1 = "[] @ [Sqlite3_bind_parameter_count (Some 1)]"
  have p: "0 \<le> rc row_platform ?h1" "rc row_platform ?h1 < 2 ^ 32"
    by (simp_all add: row_platform_def row_rc_def)
  have p': "0 \<le> rc (const_platform 2) ?h1" "rc (const_platform 2) ?h1 < 2 ^ 32"
    by (simp_all add: const_platform_def)
  have c1: "list_cells (ECons (EInt 1) ENil) = Some [EInt 1]" by simp
  have c2: "list_cells (ECons (EInt 1) (ECons (EAtom ''undefined'') ENil))
              = Some [EInt 1, EAtom ''undefined'']" by simp
  have c3: "list_cells (ECons (EInt 1) (ECons (ETuple []) ENil)) = Some [EInt 1, ETuple []]"
    by simp
  have cs: "c_string ''undefined'' = ''undefined''"
    "c_string ''engine says no'' = ''engine says no''"
    by (simp_all add: c_string_def NUL_def)
  have l1: "length [EInt 1] < 2 ^ 32" by simp
  have l2: "length [EInt 1, EAtom ''undefined''] < 2 ^ 32" by simp
  have l3: "length [EInt 1, ETuple []] < 2 ^ 32" by simp
  have b2: "bound_calls Q (Some 1) 0 [EInt 1, EAtom ''undefined'']
              = [Sqlite3_bind_int (Some 1) 1 1, Sqlite3_bind_null (Some 1) 2]" for Q
    by (simp add: bind_call_def cs MAX_ATOM_LENGTH_def)
  have b3: "bound_calls row_platform (Some 1) 0 [EInt 1, ETuple []]
              = [Sqlite3_bind_int (Some 1) 1 1]"
    by (simp add: bind_call_def)
  have r1: "rc row_platform ?h1 \<noteq> int (length [EInt 1])"
    by (simp add: row_platform_def row_rc_def)
  have r2: "rc row_platform ?h1 = int (length [EInt 1, EAtom ''undefined''])"
    by (simp add: row_platform_def row_rc_def)
  have r3: "rc row_platform ?h1 = int (length [EInt 1, ETuple []])"
    by (simp add: row_platform_def row_rc_def)
  have r4: "rc (const_platform 2) ?h1 = int (length [EInt 1, EAtom ''undefined''])"
    by (simp add: const_platform_def)
  have ok2: "\<forall>j < 2. rc row_platform ((?h1 @ [Sqlite3_reset (Some 1)])
               @ take (Suc j) (bound_calls row_platform (Some 1) 0 [EInt 1, EAtom ''undefined'']))
               = SQLITE_OK"
    unfolding b2 by (simp add: row_platform_def row_rc_def SQLITE_OK_def less_Suc_eq
        numeral_2_eq_2)
  have ok3: "\<forall>j < 1. rc row_platform ((?h1 @ [Sqlite3_reset (Some 1)])
               @ take (Suc j) (bound_calls row_platform (Some 1) 0 [EInt 1, ETuple []]))
               = SQLITE_OK"
    unfolding b3 by (simp add: row_platform_def row_rc_def SQLITE_OK_def)
  have ok4: "\<forall>j < (0::nat). rc (const_platform 2) ((?h1 @ [Sqlite3_reset (Some 1)])
               @ take (Suc j) (bound_calls (const_platform 2) (Some 1) 0
                                 [EInt 1, EAtom ''undefined''])) = SQLITE_OK"
    by simp
  have k2: "(2::nat) \<le> length (bound_calls row_platform (Some 1) 0 [EInt 1, EAtom ''undefined''])"
    unfolding b2 by simp
  have k3: "(1::nat) \<le> length (bound_calls row_platform (Some 1) 0 [EInt 1, ETuple []])"
    unfolding b3 by simp
  have k4: "(0::nat) \<le> length (bound_calls (const_platform 2) (Some 1) 0
                                  [EInt 1, EAtom ''undefined''])"
    by simp
  have 1: "do_bind row_platform (Some 9) (Some 1) (ECons (EInt 1) ENil) []
     = (ETuple [EAtom ''error'', EAtom ''args_wrong_length''],
        [Sqlite3_bind_parameter_count (Some 1)])"
    using do_bind_arity_order [OF c1 refl p l1 refl refl, of "Some 9", THEN conjunct1,
        THEN mp, OF r1]
    by simp
  have 2: "do_bind row_platform (Some 9) (Some 1)
             (ECons (EInt 1) (ECons (EAtom ''undefined'') ENil)) []
     = (EAtom ''ok'',
        [Sqlite3_bind_parameter_count (Some 1), Sqlite3_reset (Some 1),
         Sqlite3_bind_int (Some 1) 1 1, Sqlite3_bind_null (Some 1) 2])"
    using do_bind_arity_order [OF c2 refl p l2 refl refl, where k = 2 and dbh = "Some 9", THEN conjunct2,
        THEN conjunct2, THEN conjunct1, THEN mp, OF conjI [OF r2 conjI [OF k2 ok2]],
        THEN conjunct1]
    unfolding b2 by simp
  have 3: "do_bind row_platform (Some 9) (Some 1) (ECons (EInt 1) (ECons (ETuple []) ENil)) []
     = (ETuple [EAtom ''error'', EAtom ''wrong_type''],
        [Sqlite3_bind_parameter_count (Some 1), Sqlite3_reset (Some 1),
         Sqlite3_bind_int (Some 1) 1 1])"
    using do_bind_arity_order [OF c3 refl p l3 refl refl, where k = 1 and dbh = "Some 9", THEN conjunct2,
        THEN conjunct2, THEN conjunct1, THEN mp, OF conjI [OF r3 conjI [OF k3 ok3]],
        THEN conjunct1]
    unfolding b3 by simp
  have 4: "do_bind (const_platform 2) (Some 9) (Some 1)
        (ECons (EInt 1) (ECons (EAtom ''undefined'') ENil)) []
     = (ETuple [EAtom ''error'', ETuple [EAtom ''sqlite3_error'',
                  enif_make_string ''engine says no'']],
        [Sqlite3_bind_parameter_count (Some 1), Sqlite3_reset (Some 1),
         Sqlite3_bind_int (Some 1) 1 1, Sqlite3_errmsg (Some 9)])"
    using do_bind_arity_order [OF c2 refl p' l2 refl refl, where k = 0 and dbh = "Some 9", THEN conjunct2,
        THEN conjunct2, THEN conjunct1, THEN mp, OF conjI [OF r4 conjI [OF k4 ok4]],
        THEN conjunct2]
    unfolding b2 by (simp add: const_platform_def SQLITE_OK_def cs)
  show ?thesis by (intro conjI) (fact 1 2 3 4)+
qed

subsection \<open>Commands on a connection that is not open\<close>

text \<open>
  C1. The claim is that a command executed while the engine handle is \<^verbatim>\<open>NULL\<close> is
  answered with the error \<open>database_not_open\<close> and that no handler sees the null
  handle. The code builds that error tuple and drops it. Here an exec command runs on
  a connection that was never opened, against an engine that answers 21
  (\<^verbatim>\<open>SQLITE_MISUSE\<close>): \<^verbatim>\<open>sqlite3_exec\<close> and \<^verbatim>\<open>sqlite3_errmsg\<close> are called with
  the null handle and the answer is the engine's error, not \<open>database_not_open\<close>.
\<close>

theorem evaluate_command_null_handle:
  "db (conns world0 0) = None
   \<and> evaluate_command (const_platform 21)
        (fresh_command\<lparr>type := cmd_exec, arg := EBinary ''x''\<rparr>) 0 world0
     = (ETuple [EAtom ''error'', ETuple [EAtom ''sqlite3_error'', enif_make_string ''engine says no'']],
        world0\<lparr>hist := [Sqlite3_exec None ''x'', Sqlite3_errmsg None]\<rparr>)
   \<and> fst (evaluate_command (const_platform 21)
        (fresh_command\<lparr>type := cmd_exec, arg := EBinary ''x''\<rparr>) 0 world0)
     \<noteq> make_error_tuple ''database_not_open''"
proof -
  have cs: "c_string ''x'' = ''x''" "c_string ''engine says no'' = ''engine says no''"
    by (simp_all add: c_string_def NUL_def)
  have d: "db (conns world0 0) = None" by (simp add: world0_def closed_connection_def)
  have e: "evaluate_command (const_platform 21)
        (fresh_command\<lparr>type := cmd_exec, arg := EBinary ''x''\<rparr>) 0 world0
     = (ETuple [EAtom ''error'', ETuple [EAtom ''sqlite3_error'', enif_make_string ''engine says no'']],
        world0\<lparr>hist := [Sqlite3_exec None ''x'', Sqlite3_errmsg None]\<rparr>)"
    by (simp add: evaluate_command_def do_exec_def inspected_def Let_def log_call_def cs d
        const_platform_def SQLITE_OK_def make_sqlite3_error_tuple_def make_atom_def
        enif_make_tuple2_def world0_def closed_connection_def)
  show ?thesis
    unfolding e using d
    by (simp add: make_error_tuple_def make_atom_def enif_make_tuple2_def)
qed

subsection \<open>Calls on a statement without a prepared statement\<close>

text \<open>
  C9. The claim is that bind, step and list-columns on a statement handle whose
  prepared statement is \<^verbatim>\<open>NULL\<close> return an error at once and push nothing.
  \<^verbatim>\<open>esqlite_step\<close> (and \<^verbatim>\<open>esqlite_column_names\<close>, the same code) does so:
  \<open>no_prepared_statement\<close>, the world unchanged. \<^verbatim>\<open>esqlite_bind\<close> on the same handle
  returns \<open>ok\<close> and pushes a bind command whose statement pointer is \<^verbatim>\<open>NULL\<close>.
\<close>

theorem esqlite_bind_null_statement:
  "statement (stmts world_null_statement 0) = None
   \<and> esqlite_step row_platform [EResource (StatementRes 0), ERef 5, ELocalPid 7]
        world_null_statement
     = (ETuple [EAtom ''error'', EAtom ''no_prepared_statement''], world_null_statement)
   \<and> esqlite_column_names row_platform [EResource (StatementRes 0), ERef 5, ELocalPid 7]
        world_null_statement
     = (ETuple [EAtom ''error'', EAtom ''no_prepared_statement''], world_null_statement)
   \<and> fst (esqlite_bind row_platform [EResource (StatementRes 0), ERef 5, ELocalPid 7, ENil]
        world_null_statement) = EAtom ''ok''
   \<and> queue_of (snd (esqlite_bind row_platform
        [EResource (StatementRes 0), ERef 5, ELocalPid 7, ENil] world_null_statement)) 0
     = [\<lparr>type = cmd_bind, ref = ERef 5, pid = Some 7, arg = ENil, stmt = None\<rparr>]"
proof -
  have 1: "statement (stmts world_null_statement 0) = None"
    by (simp add: world_null_statement_def)
  have 2: "statement_call row_platform ty [EResource (StatementRes 0), ERef 5, ELocalPid 7]
        world_null_statement
     = (ETuple [EAtom ''error'', EAtom ''no_prepared_statement''], world_null_statement)" for ty
    by (simp add: statement_call_def get_statement_def enif_is_ref_def
        enif_get_local_pid_def 1 make_error_tuple_def make_atom_def enif_make_tuple2_def)
  have c: "command_create row_platform world_null_statement
             = (Some fresh_command, world_null_statement\<lparr>hist := [Enif_alloc, Enif_alloc_env]\<rparr>)"
    by (simp add: command_create_def Let_def log_call_def row_platform_def
        world_null_statement_def)
  let ?cmd = "\<lparr>type = cmd_bind, ref = ERef 5, pid = Some 7, arg = ENil, stmt = None\<rparr>"
  let ?w1 = "world_null_statement\<lparr>hist := [Enif_alloc, Enif_alloc_env]\<rparr>"
  have p: "statement_push row_platform 0 ?cmd ?w1
             = (EAtom ''ok'', set_commands 0 (Some [?cmd]) (log_call (Queue_push ?cmd) ?w1))"
    by (simp add: statement_push_def queue_push_def Let_def log_call_def row_platform_def
        row_rc_def world_null_statement_def closed_connection_def make_atom_def)
  have b: "esqlite_bind row_platform [EResource (StatementRes 0), ERef 5, ELocalPid 7, ENil]
        world_null_statement
      = (EAtom ''ok'', set_commands 0 (Some [?cmd]) (log_call (Queue_push ?cmd) ?w1))"
    by (simp add: esqlite_bind_def get_statement_def enif_is_ref_def enif_get_local_pid_def
        c fresh_command_def 1 p)
  have q: "queue_of (set_commands 0 (Some [?cmd]) (log_call (Queue_push ?cmd) ?w1)) 0 = [?cmd]"
    by (simp add: queue_of_def set_commands_def)
  show ?thesis
    unfolding b esqlite_step_def esqlite_column_names_def 2 using 1 q by simp
qed

subsection \<open>Validation before a command is pushed\<close>

lemma connection_call_rejects:
  assumes "\<not> accepted_shape get_connection a0 a1 a2"
  shows "rejected (fst (connection_call P ty a0 a1 a2 a3 w))
         \<and> snd (connection_call P ty a0 a1 a2 a3 w) = w"
  using assms
  by (auto simp add: connection_call_def accepted_shape_def rejected_def
      split: option.splits)

lemma esqlite_bind_rejects:
  assumes "\<not> accepted_shape get_statement a0 a1 a2"
  shows "rejected (fst (esqlite_bind P [a0, a1, a2, a3] w))
         \<and> snd (esqlite_bind P [a0, a1, a2, a3] w) = w"
  using assms
  by (auto simp add: esqlite_bind_def accepted_shape_def rejected_def split: option.splits)

lemma statement_call_rejects:
  assumes "\<not> accepted_shape get_statement a0 a1 a2"
  shows "rejected (fst (statement_call P ty [a0, a1, a2] w))
         \<and> snd (statement_call P ty [a0, a1, a2] w) = w"
  using assms
  by (auto simp add: statement_call_def accepted_shape_def rejected_def split: option.splits)

lemma not_four: "length argv \<noteq> 4 \<Longrightarrow> (case argv of [a0, a1, a2, a3] \<Rightarrow> f a0 a1 a2 a3 | _ \<Rightarrow> d) = d"
  by (auto split: list.splits)

lemma not_three: "length argv \<noteq> 3 \<Longrightarrow> (case argv of [a0, a1, a2] \<Rightarrow> f a0 a1 a2 | _ \<Rightarrow> d) = d"
  by (auto split: list.splits)

lemma command_create_ok:
  assumes "ptr P (hist w @ [Enif_alloc]) \<noteq> None"
    and "ptr P (hist w @ [Enif_alloc, Enif_alloc_env]) \<noteq> None"
  shows "command_create P w = (Some fresh_command, log_call Enif_alloc_env (log_call Enif_alloc w))"
  using assms by (auto simp add: command_create_def Let_def log_call_def)

lemma queue_push_enqueues:
  assumes "can_enqueue P w c q cmd"
  shows "\<exists>w'. queue_push P c cmd (log_call Enif_alloc_env (log_call Enif_alloc w)) = (True, w')
           \<and> enqueued w w' c q cmd"
  using assms
  by (simp add: can_enqueue_def enqueued_def queue_push_def Let_def log_call_def
      set_commands_def queue_of_def)

lemma connection_call_accepts:
  assumes "get_connection a0 = Some c" and "enif_is_ref a1"
    and "enif_get_local_pid a2 = Some p"
    and "can_enqueue P w c q \<lparr>type = ty, ref = a1, pid = Some p, arg = a3, stmt = None\<rparr>"
  shows "fst (connection_call P ty a0 a1 a2 a3 w) = EAtom ''ok''
         \<and> enqueued w (snd (connection_call P ty a0 a1 a2 a3 w)) c q
              \<lparr>type = ty, ref = a1, pid = Some p, arg = a3, stmt = None\<rparr>"
proof -
  let ?cmd = "\<lparr>type = ty, ref = a1, pid = Some p, arg = a3, stmt = None\<rparr>"
  have cc: "command_create P w
              = (Some fresh_command, log_call Enif_alloc_env (log_call Enif_alloc w))"
    using assms(4) by (intro command_create_ok) (simp_all add: can_enqueue_def)
  have fc: "fresh_command\<lparr>type := ty, ref := a1, pid := Some p, arg := a3\<rparr> = ?cmd"
    by (simp add: fresh_command_def)
  from queue_push_enqueues [OF assms(4)] obtain w'
    where p: "queue_push P c ?cmd (log_call Enif_alloc_env (log_call Enif_alloc w)) = (True, w')"
      and e: "enqueued w w' c q ?cmd"
    by blast
  have "connection_call P ty a0 a1 a2 a3 w = (EAtom ''ok'', w')"
    using assms(1-3) by (simp add: connection_call_def cc fc p make_atom_def)
  then show ?thesis using e by simp
qed

lemma esqlite_bind_accepts:
  assumes "get_statement a0 = Some s" and "enif_is_ref a1"
    and "enif_get_local_pid a2 = Some p"
    and "connection (stmts w s) = Some c"
    and "can_enqueue P w c q
           \<lparr>type = cmd_bind, ref = a1, pid = Some p, arg = a3, stmt = statement (stmts w s)\<rparr>"
  shows "fst (esqlite_bind P [a0, a1, a2, a3] w) = EAtom ''ok''
         \<and> enqueued w (snd (esqlite_bind P [a0, a1, a2, a3] w)) c q
              \<lparr>type = cmd_bind, ref = a1, pid = Some p, arg = a3, stmt = statement (stmts w s)\<rparr>"
proof -
  let ?cmd = "\<lparr>type = cmd_bind, ref = a1, pid = Some p, arg = a3,
               stmt = statement (stmts w s)\<rparr>"
  let ?w1 = "log_call Enif_alloc_env (log_call Enif_alloc w)"
  have cc: "command_create P w = (Some fresh_command, ?w1)"
    using assms(5) by (intro command_create_ok) (simp_all add: can_enqueue_def)
  have st: "stmts ?w1 = stmts w" "conns ?w1 = conns w" by (simp_all add: log_call_def)
  have fc: "fresh_command\<lparr>type := cmd_bind, ref := a1, pid := Some p,
              stmt := statement (stmts w s), arg := a3\<rparr> = ?cmd"
    by (simp add: fresh_command_def)
  from queue_push_enqueues [OF assms(5)] obtain w'
    where p: "queue_push P c ?cmd ?w1 = (True, w')" and e: "enqueued w w' c q ?cmd"
    by blast
  have q: "commands (conns w c) = Some q" using assms(5) by (simp add: can_enqueue_def)
  have "statement_push P s ?cmd ?w1 = (EAtom ''ok'', w')"
    using assms(4) q by (simp add: statement_push_def st p make_atom_def)
  then have "esqlite_bind P [a0, a1, a2, a3] w = (EAtom ''ok'', w')"
    using assms(1-3) by (simp add: esqlite_bind_def cc st fc)
  then show ?thesis using e by simp
qed

text \<open>
  C2, as amended. A call with the wrong number of arguments (other than four for open,
  exec, prepare and bind, other than three for step and list-columns) returns
  \<open>badarg\<close>; a call whose handle is no resource of the expected type returns \<open>badarg\<close>,
  one whose token is no reference returns the error \<open>invalid_ref\<close>, one whose
  destination is no local process identifier returns the error \<open>invalid_pid\<close>. In each
  of these cases the world is unchanged: no command is created, nothing is pushed,
  nothing is logged, so no reply can follow. This holds for all seven functions
  (\<^verbatim>\<open>esqlite_close\<close> reads its three arguments without a test of their number). The
  fourth argument (path, SQL text, value list) is not looked at before the push: a call
  of open, exec, prepare or bind that passes the three tests, and whose command can be
  allocated and pushed, returns \<open>ok\<close> and leaves at the tail of the queue a command
  that carries the fourth argument as it is, whatever its shape.
\<close>

theorem validation_before_push:
  "(length argv \<noteq> 4 \<longrightarrow>
      esqlite_open P argv w = (EBadarg, w) \<and> esqlite_exec P argv w = (EBadarg, w)
      \<and> esqlite_prepare P argv w = (EBadarg, w) \<and> esqlite_bind P argv w = (EBadarg, w))
   \<and> (length argv \<noteq> 3 \<longrightarrow>
      esqlite_step P argv w = (EBadarg, w) \<and> esqlite_column_names P argv w = (EBadarg, w))
   \<and> (\<not> accepted_shape get_connection a0 a1 a2 \<longrightarrow>
      rejected (fst (esqlite_open P [a0, a1, a2, a3] w))
      \<and> snd (esqlite_open P [a0, a1, a2, a3] w) = w
      \<and> rejected (fst (esqlite_exec P [a0, a1, a2, a3] w))
      \<and> snd (esqlite_exec P [a0, a1, a2, a3] w) = w
      \<and> rejected (fst (esqlite_prepare P [a0, a1, a2, a3] w))
      \<and> snd (esqlite_prepare P [a0, a1, a2, a3] w) = w
      \<and> rejected (fst (esqlite_close P a0 a1 a2 w))
      \<and> snd (esqlite_close P a0 a1 a2 w) = w)
   \<and> (\<not> accepted_shape get_statement a0 a1 a2 \<longrightarrow>
      rejected (fst (esqlite_bind P [a0, a1, a2, a3] w))
      \<and> snd (esqlite_bind P [a0, a1, a2, a3] w) = w
      \<and> rejected (fst (esqlite_step P [a0, a1, a2] w))
      \<and> snd (esqlite_step P [a0, a1, a2] w) = w
      \<and> rejected (fst (esqlite_column_names P [a0, a1, a2] w))
      \<and> snd (esqlite_column_names P [a0, a1, a2] w) = w)
   \<and> (get_connection a0 = Some c \<and> enif_is_ref a1 \<and> enif_get_local_pid a2 = Some p
        \<and> can_enqueue P w c q
             \<lparr>type = cmd_open, ref = a1, pid = Some p, arg = a3, stmt = None\<rparr> \<longrightarrow>
      fst (esqlite_open P [a0, a1, a2, a3] w) = EAtom ''ok''
      \<and> enqueued w (snd (esqlite_open P [a0, a1, a2, a3] w)) c q
           \<lparr>type = cmd_open, ref = a1, pid = Some p, arg = a3, stmt = None\<rparr>)
   \<and> (get_connection a0 = Some c \<and> enif_is_ref a1 \<and> enif_get_local_pid a2 = Some p
        \<and> can_enqueue P w c q
             \<lparr>type = cmd_exec, ref = a1, pid = Some p, arg = a3, stmt = None\<rparr> \<longrightarrow>
      fst (esqlite_exec P [a0, a1, a2, a3] w) = EAtom ''ok''
      \<and> enqueued w (snd (esqlite_exec P [a0, a1, a2, a3] w)) c q
           \<lparr>type = cmd_exec, ref = a1, pid = Some p, arg = a3, stmt = None\<rparr>)
   \<and> (get_connection a0 = Some c \<and> enif_is_ref a1 \<and> enif_get_local_pid a2 = Some p
        \<and> can_enqueue P w c q
             \<lparr>type = cmd_prepare, ref = a1, pid = Some p, arg = a3, stmt = None\<rparr> \<longrightarrow>
      fst (esqlite_prepare P [a0, a1, a2, a3] w) = EAtom ''ok''
      \<and> enqueued w (snd (esqlite_prepare P [a0, a1, a2, a3] w)) c q
           \<lparr>type = cmd_prepare, ref = a1, pid = Some p, arg = a3, stmt = None\<rparr>)
   \<and> (get_statement a0 = Some s \<and> enif_is_ref a1 \<and> enif_get_local_pid a2 = Some p
        \<and> connection (stmts w s) = Some c
        \<and> can_enqueue P w c q
             \<lparr>type = cmd_bind, ref = a1, pid = Some p, arg = a3,
               stmt = statement (stmts w s)\<rparr> \<longrightarrow>
      fst (esqlite_bind P [a0, a1, a2, a3] w) = EAtom ''ok''
      \<and> enqueued w (snd (esqlite_bind P [a0, a1, a2, a3] w)) c q
           \<lparr>type = cmd_bind, ref = a1, pid = Some p, arg = a3,
             stmt = statement (stmts w s)\<rparr>)"
proof -
  have 1: "length argv \<noteq> 4 \<longrightarrow>
      esqlite_open P argv w = (EBadarg, w) \<and> esqlite_exec P argv w = (EBadarg, w)
      \<and> esqlite_prepare P argv w = (EBadarg, w) \<and> esqlite_bind P argv w = (EBadarg, w)"
    by (simp add: esqlite_open_def esqlite_exec_def esqlite_prepare_def esqlite_bind_def
        not_four)
  have 2: "length argv \<noteq> 3 \<longrightarrow>
      esqlite_step P argv w = (EBadarg, w) \<and> esqlite_column_names P argv w = (EBadarg, w)"
    by (simp add: esqlite_step_def esqlite_column_names_def statement_call_def not_three)
  have 3: "\<not> accepted_shape get_connection a0 a1 a2 \<longrightarrow>
      rejected (fst (esqlite_open P [a0, a1, a2, a3] w))
      \<and> snd (esqlite_open P [a0, a1, a2, a3] w) = w
      \<and> rejected (fst (esqlite_exec P [a0, a1, a2, a3] w))
      \<and> snd (esqlite_exec P [a0, a1, a2, a3] w) = w
      \<and> rejected (fst (esqlite_prepare P [a0, a1, a2, a3] w))
      \<and> snd (esqlite_prepare P [a0, a1, a2, a3] w) = w
      \<and> rejected (fst (esqlite_close P a0 a1 a2 w))
      \<and> snd (esqlite_close P a0 a1 a2 w) = w"
    by (simp add: esqlite_open_def esqlite_exec_def esqlite_prepare_def esqlite_close_def
        connection_call_rejects)
  have 4: "\<not> accepted_shape get_statement a0 a1 a2 \<longrightarrow>
      rejected (fst (esqlite_bind P [a0, a1, a2, a3] w))
      \<and> snd (esqlite_bind P [a0, a1, a2, a3] w) = w
      \<and> rejected (fst (esqlite_step P [a0, a1, a2] w))
      \<and> snd (esqlite_step P [a0, a1, a2] w) = w
      \<and> rejected (fst (esqlite_column_names P [a0, a1, a2] w))
      \<and> snd (esqlite_column_names P [a0, a1, a2] w) = w"
    by (simp add: esqlite_step_def esqlite_column_names_def esqlite_bind_rejects
        statement_call_rejects)
  have 5: "get_connection a0 = Some c \<and> enif_is_ref a1 \<and> enif_get_local_pid a2 = Some p
        \<and> can_enqueue P w c q
             \<lparr>type = cmd_open, ref = a1, pid = Some p, arg = a3, stmt = None\<rparr> \<longrightarrow>
      fst (esqlite_open P [a0, a1, a2, a3] w) = EAtom ''ok''
      \<and> enqueued w (snd (esqlite_open P [a0, a1, a2, a3] w)) c q
           \<lparr>type = cmd_open, ref = a1, pid = Some p, arg = a3, stmt = None\<rparr>"
    using connection_call_accepts [of a0 c a1 a2 p P w q cmd_open a3]
    by (simp add: esqlite_open_def)
  have 6: "get_connection a0 = Some c \<and> enif_is_ref a1 \<and> enif_get_local_pid a2 = Some p
        \<and> can_enqueue P w c q
             \<lparr>type = cmd_exec, ref = a1, pid = Some p, arg = a3, stmt = None\<rparr> \<longrightarrow>
      fst (esqlite_exec P [a0, a1, a2, a3] w) = EAtom ''ok''
      \<and> enqueued w (snd (esqlite_exec P [a0, a1, a2, a3] w)) c q
           \<lparr>type = cmd_exec, ref = a1, pid = Some p, arg = a3, stmt = None\<rparr>"
    using connection_call_accepts [of a0 c a1 a2 p P w q cmd_exec a3]
    by (simp add: esqlite_exec_def)
  have 7: "get_connection a0 = Some c \<and> enif_is_ref a1 \<and> enif_get_local_pid a2 = Some p
        \<and> can_enqueue P w c q
             \<lparr>type = cmd_prepare, ref = a1, pid = Some p, arg = a3, stmt = None\<rparr> \<longrightarrow>
      fst (esqlite_prepare P [a0, a1, a2, a3] w) = EAtom ''ok''
      \<and> enqueued w (snd (esqlite_prepare P [a0, a1, a2, a3] w)) c q
           \<lparr>type = cmd_prepare, ref = a1, pid = Some p, arg = a3, stmt = None\<rparr>"
    using connection_call_accepts [of a0 c a1 a2 p P w q cmd_prepare a3]
    by (simp add: esqlite_prepare_def)
  have 8: "get_statement a0 = Some s \<and> enif_is_ref a1 \<and> enif_get_local_pid a2 = Some p
        \<and> connection (stmts w s) = Some c
        \<and> can_enqueue P w c q
             \<lparr>type = cmd_bind, ref = a1, pid = Some p, arg = a3,
               stmt = statement (stmts w s)\<rparr> \<longrightarrow>
      fst (esqlite_bind P [a0, a1, a2, a3] w) = EAtom ''ok''
      \<and> enqueued w (snd (esqlite_bind P [a0, a1, a2, a3] w)) c q
           \<lparr>type = cmd_bind, ref = a1, pid = Some p, arg = a3,
             stmt = statement (stmts w s)\<rparr>"
    using esqlite_bind_accepts [of a0 s a1 a2 p w c P q a3] by simp
  show ?thesis by (intro conjI) (fact 1 2 3 4 5 6 7 8)+
qed

theorem open_path_not_validated:
  "fst (esqlite_open row_platform [EResource (ConnectionRes 0), ERef 5, ELocalPid 7, EInt 3]
          world0) = EAtom ''ok''
   \<and> queue_of (snd (esqlite_open row_platform
          [EResource (ConnectionRes 0), ERef 5, ELocalPid 7, EInt 3] world0)) 0
     = [\<lparr>type = cmd_open, ref = ERef 5, pid = Some 7, arg = EInt 3, stmt = None\<rparr>]
   \<and> fst (evaluate_command row_platform
          \<lparr>type = cmd_open, ref = ERef 5, pid = Some 7, arg = EInt 3, stmt = None\<rparr> 0 world0)
     = ETuple [EAtom ''error'', EAtom ''invalid_filename'']"
proof -
  let ?cmd = "\<lparr>type = cmd_open, ref = ERef 5, pid = Some 7, arg = EInt 3, stmt = None\<rparr>"
  let ?w1 = "world0\<lparr>hist := [Enif_alloc, Enif_alloc_env]\<rparr>"
  have c: "command_create row_platform world0 = (Some fresh_command, ?w1)"
    by (simp add: command_create_def Let_def log_call_def row_platform_def world0_def)
  have p: "queue_push row_platform 0 ?cmd ?w1
             = (True, set_commands 0 (Some [?cmd]) (log_call (Queue_push ?cmd) ?w1))"
    by (simp add: queue_push_def Let_def log_call_def row_platform_def
        row_rc_def world0_def closed_connection_def)
  have o: "esqlite_open row_platform [EResource (ConnectionRes 0), ERef 5, ELocalPid 7, EInt 3]
          world0 = (EAtom ''ok'', set_commands 0 (Some [?cmd]) (log_call (Queue_push ?cmd) ?w1))"
    by (simp add: esqlite_open_def connection_call_def get_connection_def enif_is_ref_def
        enif_get_local_pid_def c fresh_command_def p make_atom_def)
  have q: "queue_of (set_commands 0 (Some [?cmd]) (log_call (Queue_push ?cmd) ?w1)) 0 = [?cmd]"
    by (simp add: queue_of_def set_commands_def)
  have e: "fst (evaluate_command row_platform ?cmd 0 world0)
     = ETuple [EAtom ''error'', EAtom ''invalid_filename'']"
    by (simp add: evaluate_command_def do_open_def enif_get_string_def MAX_PATHNAME_def
        make_error_tuple_def make_atom_def enif_make_tuple2_def)
  show ?thesis unfolding o using q e by simp
qed

theorem validation_before_push_witness:
  "esqlite_open row_platform [EResource (ConnectionRes 0), ERef 5] world0 = (EBadarg, world0)
   \<and> rejected (fst (esqlite_open row_platform
        [EResource (ConnectionRes 0), EInt 5, ELocalPid 7, ENil] world0))
   \<and> snd (esqlite_open row_platform
        [EResource (ConnectionRes 0), EInt 5, ELocalPid 7, ENil] world0) = world0
   \<and> rejected (fst (esqlite_step row_platform
        [EResource (StatementRes 0), ERef 5, ERemotePid 7] world0))
   \<and> snd (esqlite_step row_platform
        [EResource (StatementRes 0), ERef 5, ERemotePid 7] world0) = world0
   \<and> fst (esqlite_exec row_platform
        [EResource (ConnectionRes 0), ERef 5, ELocalPid 7, ETuple []] world0) = EAtom ''ok''
   \<and> queue_of (snd (esqlite_exec row_platform
        [EResource (ConnectionRes 0), ERef 5, ELocalPid 7, ETuple []] world0)) 0
       = [\<lparr>type = cmd_exec, ref = ERef 5, pid = Some 7, arg = ETuple [], stmt = None\<rparr>]"
proof -
  have n4: "length [EResource (ConnectionRes 0), ERef 5] \<noteq> 4" by simp
  have s1: "\<not> accepted_shape get_connection (EResource (ConnectionRes 0)) (EInt 5) (ELocalPid 7)"
    by (simp add: accepted_shape_def enif_is_ref_def)
  have s2: "\<not> accepted_shape get_statement (EResource (StatementRes 0)) (ERef 5) (ERemotePid 7)"
    by (simp add: accepted_shape_def enif_get_local_pid_def)
  let ?cmd = "\<lparr>type = cmd_exec, ref = ERef 5, pid = Some 7, arg = ETuple [], stmt = None\<rparr>"
  have s3: "get_connection (EResource (ConnectionRes 0)) = Some 0 \<and> enif_is_ref (ERef 5)
              \<and> enif_get_local_pid (ELocalPid 7) = Some 7
              \<and> can_enqueue row_platform world0 0 [] ?cmd"
    by (simp add: get_connection_def enif_is_ref_def enif_get_local_pid_def can_enqueue_def
        row_platform_def row_rc_def world0_def closed_connection_def)
  have 1: "esqlite_open row_platform [EResource (ConnectionRes 0), ERef 5] world0
             = (EBadarg, world0)"
    using validation_before_push [where argv = "[EResource (ConnectionRes 0), ERef 5]"
        and P = row_platform and w = world0, THEN conjunct1, THEN mp, OF n4]
    by simp
  have 2: "rejected (fst (esqlite_open row_platform
        [EResource (ConnectionRes 0), EInt 5, ELocalPid 7, ENil] world0))
     \<and> snd (esqlite_open row_platform
        [EResource (ConnectionRes 0), EInt 5, ELocalPid 7, ENil] world0) = world0"
    using validation_before_push [where P = row_platform and w = world0
        and ?a0.0 = "EResource (ConnectionRes 0)" and ?a1.0 = "EInt 5" and ?a2.0 = "ELocalPid 7"
        and ?a3.0 = ENil,
        THEN conjunct2, THEN conjunct2, THEN conjunct1, THEN mp, OF s1]
    by simp
  have 3: "rejected (fst (esqlite_step row_platform
        [EResource (StatementRes 0), ERef 5, ERemotePid 7] world0))
     \<and> snd (esqlite_step row_platform
        [EResource (StatementRes 0), ERef 5, ERemotePid 7] world0) = world0"
    using validation_before_push [where P = row_platform and w = world0
        and ?a0.0 = "EResource (StatementRes 0)" and ?a1.0 = "ERef 5" and ?a2.0 = "ERemotePid 7",
        THEN conjunct2, THEN conjunct2, THEN conjunct2, THEN conjunct1, THEN mp, OF s2]
    by simp
  have 4: "fst (esqlite_exec row_platform
        [EResource (ConnectionRes 0), ERef 5, ELocalPid 7, ETuple []] world0) = EAtom ''ok''
     \<and> enqueued world0 (snd (esqlite_exec row_platform
        [EResource (ConnectionRes 0), ERef 5, ELocalPid 7, ETuple []] world0)) 0 [] ?cmd"
    using validation_before_push [where P = row_platform and w = world0
        and ?a0.0 = "EResource (ConnectionRes 0)" and ?a1.0 = "ERef 5" and ?a2.0 = "ELocalPid 7"
        and ?a3.0 = "ETuple []" and c = 0 and p = 7 and q = "[]",
        THEN conjunct2, THEN conjunct2, THEN conjunct2, THEN conjunct2, THEN conjunct2,
        THEN conjunct1, THEN mp, OF s3] .
  then have 5: "queue_of (snd (esqlite_exec row_platform
        [EResource (ConnectionRes 0), ERef 5, ELocalPid 7, ETuple []] world0)) 0 = [?cmd]"
    by (simp add: enqueued_def)
  show ?thesis using 1 2 3 4 5 by simp
qed

subsection \<open>The worker loop\<close>

text \<open>
  No handler sends a message, touches the queue or destroys a command: the calls of
  that kind in the log are those of the loop.
\<close>

lemma loop_call_simps [simp]:
  "loop_call (Enif_send p m)"
  "\<not> loop_call (Sqlite3_open b0)"
  "\<not> loop_call (Sqlite3_close c0)"
  "\<not> loop_call (Sqlite3_errmsg d0)"
  "\<not> loop_call (Sqlite3_exec e0 e1)"
  "\<not> loop_call (Sqlite3_prepare_v2 f0 f1)"
  "\<not> loop_call (Usleep g0)"
  "\<not> loop_call (Sqlite3_bind_parameter_count h0)"
  "\<not> loop_call (Sqlite3_reset i0)"
  "\<not> loop_call (Sqlite3_bind_int j0 j1 j2)"
  "\<not> loop_call (Sqlite3_bind_double k0 k1 k2)"
  "\<not> loop_call (Sqlite3_bind_null l0 l1)"
  "\<not> loop_call (Sqlite3_bind_text m0 m1 m2)"
  "\<not> loop_call (Sqlite3_bind_blob n0 n1 n2)"
  "\<not> loop_call (Sqlite3_step o0)"
  "\<not> loop_call (Sqlite3_column_count p0)"
  "\<not> loop_call (Sqlite3_column_type q0 q1)"
  "\<not> loop_call (Sqlite3_column_int r0 r1)"
  "\<not> loop_call (Sqlite3_column_double s0 s1)"
  "\<not> loop_call (Sqlite3_column_blob t0 t1)"
  "\<not> loop_call (Sqlite3_column_bytes u0 u1)"
  "\<not> loop_call (Sqlite3_column_text v0 v1)"
  "\<not> loop_call (Sqlite3_column_name w0 w1)"
  "\<not> loop_call (Malloc x0)"
  "loop_call Enif_alloc"
  "loop_call Enif_alloc_env"
  "\<not> loop_call (Enif_alloc_binary y0)"
  "\<not> loop_call Enif_alloc_resource"
  "\<not> loop_call (Enif_keep_resource z0)"
  "\<not> loop_call (Enif_release_resource A0)"
  "loop_call (Queue_push B0)"
  "loop_call (Queue_send C0)"
  "loop_call Queue_pop"
  "loop_call Queue_destroy"
  "loop_call Enif_thread_join"
  "loop_call Enif_thread_opts_destroy"
  "loop_call (Command_destroy D0)"
  by (simp_all add: loop_call_def)

lemma make_cell_loop_calls: "filter loop_call (snd (make_cell P st i h)) = filter loop_call h"
  by (simp add: make_cell_def make_binary_def Let_def)

lemma make_row_loop_loop_calls:
  "filter loop_call (snd (make_row_loop P st i k h)) = filter loop_call h"
proof (induction k arbitrary: i h)
  case 0
  then show ?case by simp
next
  case (Suc k)
  obtain c h1 where c: "make_cell P st i h = (c, h1)" by (cases "make_cell P st i h")
  obtain cs h2 where cs: "make_row_loop P st (Suc i) k h1 = (cs, h2)"
    by (cases "make_row_loop P st (Suc i) k h1")
  from make_cell_loop_calls [of P st i h] c have "filter loop_call h1 = filter loop_call h" by simp
  moreover from Suc.IH [of "Suc i" h1] cs have "filter loop_call h2 = filter loop_call h1" by simp
  ultimately show ?case using c cs by simp
qed

lemma make_row_loop_calls: "filter loop_call (snd (make_row P st h)) = filter loop_call h"
proof -
  let ?n = "rc P (h @ [Sqlite3_column_count st])"
  let ?h2 = "h @ [Sqlite3_column_count st, Malloc ?n]"
  obtain cells h3 where l: "make_row_loop P st 0 (nat ?n) ?h2 = (cells, h3)"
    by (cases "make_row_loop P st 0 (nat ?n) ?h2")
  from make_row_loop_loop_calls [of P st 0 "nat ?n" ?h2] l
  have "filter loop_call h3 = filter loop_call h" by simp
  then show ?thesis using l by (simp add: make_row_def Let_def)
qed

lemma do_step_loop_calls: "filter loop_call (snd (do_step P st h)) = filter loop_call h"
  using make_row_loop_calls [of P st "h @ [Sqlite3_step st]"]
  by (simp add: do_step_def Let_def)

lemma do_column_names_loop_loop_calls:
  "filter loop_call (snd (do_column_names_loop P st i k h)) = filter loop_call h"
proof (induction k arbitrary: i h)
  case 0
  then show ?case by simp
next
  case (Suc k)
  let ?h1 = "h @ [Sqlite3_column_name st i]"
  obtain ns h2 where l: "do_column_names_loop P st (Suc i) k ?h1 = (ns, h2)"
    by (cases "do_column_names_loop P st (Suc i) k ?h1")
  from Suc.IH [of "Suc i" ?h1] l have "filter loop_call h2 = filter loop_call h"
    by simp
  then show ?case using l by (simp add: Let_def)
qed

lemma do_column_names_loop_calls:
  "filter loop_call (snd (do_column_names P st h)) = filter loop_call h"
proof -
  let ?n = "rc P (h @ [Sqlite3_column_count st])"
  let ?h2 = "h @ [Sqlite3_column_count st, Malloc ?n]"
  obtain ns h3 where l: "do_column_names_loop P st 0 (nat ?n) ?h2 = (ns, h3)"
    by (cases "do_column_names_loop P st 0 (nat ?n) ?h2")
  from do_column_names_loop_loop_calls [of P st 0 "nat ?n" ?h2] l
  have "filter loop_call h3 = filter loop_call h" by simp
  then show ?thesis using l by (simp add: do_column_names_def Let_def)
qed

lemma bind_cell_loop_calls: "filter loop_call (snd (bind_cell P cell st i h)) = filter loop_call h"
proof (cases "bind_call P st i cell")
  case None
  then show ?thesis by (simp add: bind_cell_bind_call)
next
  case (Some c)
  then have "is_bind c" by (rule bind_call_is_bind)
  then have "\<not> loop_call c" by (cases c) (simp_all add: is_bind_def)
  then show ?thesis using Some by (simp add: bind_cell_bind_call)
qed

lemma do_bind_loop_loop_calls:
  "filter loop_call (snd (do_bind_loop P dbh st i vs h)) = filter loop_call h"
proof (induction vs arbitrary: i h)
  case Nil
  then show ?case by simp
next
  case (Cons v vs)
  obtain r h1 where b: "bind_cell P v st (i + 1) h = (r, h1)"
    by (cases "bind_cell P v st (i + 1) h")
  from bind_cell_loop_calls [of P v st "i + 1" h] b have 1: "filter loop_call h1 = filter loop_call h"
    by simp
  from Cons.IH [of "i + 1" h1]
  have 2: "filter loop_call (snd (do_bind_loop P dbh st (i + 1) vs h1)) = filter loop_call h1" .
  show ?case using b 1 2 by (simp add: Let_def)
qed

lemma do_bind_loop_calls: "filter loop_call (snd (do_bind P dbh st a h)) = filter loop_call h"
  using do_bind_loop_loop_calls [of P dbh st 0 _ "h @ [Sqlite3_bind_parameter_count st, Sqlite3_reset st]"]
  by (simp add: do_bind_def Let_def split: option.splits)
lemma do_open_loop_calls: "filter loop_call (hist (snd (do_open P c a w))) = filter loop_call (hist w)"
  by (simp add: do_open_def Let_def log_call_def set_db_def split: prod.splits)

lemma do_exec_loop_calls: "filter loop_call (hist (snd (do_exec P c a w))) = filter loop_call (hist w)"
  by (simp add: do_exec_def Let_def log_call_def)

lemma do_close_loop_calls: "filter loop_call (hist (snd (do_close P c a w))) = filter loop_call (hist w)"
  by (simp add: do_close_def Let_def log_call_def set_db_def)

lemma do_prepare_loop_loop_calls:
  "filter loop_call (hist (snd (do_prepare_loop P dbh bin s retries w))) = filter loop_call (hist w)"
proof (induction P dbh bin s retries w rule: do_prepare_loop.induct)
  case (1 P dbh bin s retries w)
  let ?w1 = "log_call (Sqlite3_prepare_v2 dbh bin) w"
  let ?w3 = "log_call (Usleep (int retries * 100)) (set_statement s (ptr P (hist ?w1)) ?w1)"
  have h3: "filter loop_call (hist ?w3) = filter loop_call (hist w)"
    by (simp add: do_prepare_loop_pass attempt_def)
  show ?case
  proof (cases "rc P (hist ?w1) = SQLITE_BUSY \<and> retries < 100")
    case True
    have step: "do_prepare_loop P dbh bin s retries w = do_prepare_loop P dbh bin s (retries + 1) ?w3"
      using True by (subst do_prepare_loop.simps) (simp add: Let_def)
    have "filter loop_call (hist (snd (do_prepare_loop P dbh bin s (retries + 1) ?w3)))
            = filter loop_call (hist ?w3)"
      using "1.IH" [OF refl refl refl refl True] .
    then show ?thesis unfolding step h3 .
  next
    case False
    then have stop: "do_prepare_loop P dbh bin s retries w = (rc P (hist ?w1), ?w3)"
      by (subst do_prepare_loop.simps) (auto simp add: Let_def)
    show ?thesis unfolding stop using h3 by simp
  qed
qed

lemma do_prepare_loop_calls:
  "filter loop_call (hist (snd (do_prepare P c a w))) = filter loop_call (hist w)"
proof (cases "ptr P (hist (log_call Enif_alloc_resource w))")
  case None
  then show ?thesis by (simp add: do_prepare_def Let_def log_call_def)
next
  case (Some s)
  let ?w0 = "log_call Enif_alloc_resource w"
  obtain r w1 where l: "do_prepare_loop P (db (conns ?w0 c)) (inspected P a) s 0 ?w0 = (r, w1)"
    by (cases "do_prepare_loop P (db (conns ?w0 c)) (inspected P a) s 0 ?w0")
  from do_prepare_loop_loop_calls [of P "db (conns ?w0 c)" "inspected P a" s 0 ?w0] l
  have "filter loop_call (hist w1) = filter loop_call (hist w)" by (simp add: log_call_def)
  then show ?thesis
    using Some l by (simp add: do_prepare_def Let_def log_call_def set_connection_def)
qed

lemma lift_stmt_loop_calls:
  assumes "filter loop_call (snd (f (hist w))) = filter loop_call (hist w)"
  shows "filter loop_call (hist (snd (lift_stmt f w))) = filter loop_call (hist w)"
  using assms by (cases "f (hist w)") (simp add: lift_stmt_def)

lemma evaluate_command_loop_calls:
  "filter loop_call (hist (snd (evaluate_command P cmd c w))) = filter loop_call (hist w)"
  by (cases "type cmd")
    (simp_all add: evaluate_command_def do_open_loop_calls do_exec_loop_calls do_prepare_loop_calls
      do_close_loop_calls lift_stmt_loop_calls do_step_loop_calls do_bind_loop_calls do_column_names_loop_calls)


lemma filter_loop_call:
  assumes "\<And>c. Q c \<Longrightarrow> loop_call c"
  shows "filter Q (filter loop_call h) = filter Q h"
  using assms by (induction h) auto

lemma is_send_loop_call: "is_send c \<Longrightarrow> loop_call c"
  by (cases c) (simp_all add: is_send_def)

lemma is_queue_call_loop_call: "is_queue_call c \<Longrightarrow> loop_call c"
  by (cases c) (simp_all add: is_queue_call_def)

lemma evaluate_command_sends:
  "filter is_send (hist (snd (evaluate_command P cmd c w))) = filter is_send (hist w)"
  using evaluate_command_loop_calls [of P cmd c w]
    filter_loop_call [of is_send "hist (snd (evaluate_command P cmd c w))", OF is_send_loop_call]
    filter_loop_call [of is_send "hist w", OF is_send_loop_call]
  by simp

lemma evaluate_command_queue_calls:
  "filter is_queue_call (hist (snd (evaluate_command P cmd c w))) = filter is_queue_call (hist w)"
  using evaluate_command_loop_calls [of P cmd c w]
    filter_loop_call [of is_queue_call "hist (snd (evaluate_command P cmd c w))",
      OF is_queue_call_loop_call]
    filter_loop_call [of is_queue_call "hist w", OF is_queue_call_loop_call]
  by simp

text \<open>
  One pass of the loop over a command that is no stop command serves it, and the loop
  goes on with the rest of the queue.
\<close>

lemma run_loop_pass:
  assumes "type cmd \<noteq> cmd_stop"
  shows "run_loop P c (cmd # queue) w = run_loop P c queue (served P c cmd w)"
  using assms
  by (simp add: served_def Let_def make_answer_def enif_make_tuple2_def split: prod.splits)

lemma run_loop_prefix:
  assumes "\<forall>cmd \<in> set cmds. type cmd \<noteq> cmd_stop"
  shows "run_loop P c (cmds @ queue) w = run_loop P c queue (served_all P c cmds w)"
  using assms
proof (induction cmds arbitrary: w)
  case Nil
  then show ?case by simp
next
  case (Cons cmd cmds)
  then have t: "type cmd \<noteq> cmd_stop" and rest: "\<forall>x \<in> set cmds. type x \<noteq> cmd_stop"
    by simp_all
  have "run_loop P c ((cmd # cmds) @ queue) w = run_loop P c (cmds @ queue) (served P c cmd w)"
    using run_loop_pass [OF t, of P c "cmds @ queue" w] by simp
  then show ?case using Cons.IH [OF rest, of "served P c cmd w"] by simp
qed

lemma served_sends:
  "filter is_send (hist (served P c cmd w)) = filter is_send (hist w)
     @ [Enif_send (pid cmd)
          (ETuple [ref cmd, fst (evaluate_command P cmd c (log_call Queue_pop w))])]"
proof -
  obtain answer w2 where e: "evaluate_command P cmd c (log_call Queue_pop w) = (answer, w2)"
    by (cases "evaluate_command P cmd c (log_call Queue_pop w)")
  from evaluate_command_sends [of P cmd c "log_call Queue_pop w"] e
  have "filter is_send (hist w2) = filter is_send (hist w)"
    by (simp add: log_call_def is_send_def)
  then show ?thesis using e by (simp add: served_def log_call_def is_send_def)
qed

lemma served_queue_calls:
  "filter is_queue_call (hist (served P c cmd w)) = filter is_queue_call (hist w) @ [Queue_pop]"
proof -
  obtain answer w2 where e: "evaluate_command P cmd c (log_call Queue_pop w) = (answer, w2)"
    by (cases "evaluate_command P cmd c (log_call Queue_pop w)")
  from evaluate_command_queue_calls [of P cmd c "log_call Queue_pop w"] e
  have "filter is_queue_call (hist w2) = filter is_queue_call (hist w) @ [Queue_pop]"
    by (simp add: log_call_def is_queue_call_def)
  then show ?thesis using e by (simp add: served_def log_call_def is_queue_call_def)
qed

lemma served_all_sends:
  "filter is_send (hist (served_all P c cmds w)) = filter is_send (hist w) @ replies P c cmds w"
  by (induction cmds arbitrary: w) (simp_all add: served_sends)

lemma served_all_queue_calls:
  "filter is_queue_call (hist (served_all P c cmds w))
     = filter is_queue_call (hist w) @ replicate (length cmds) Queue_pop"
  by (induction cmds arbitrary: w) (simp_all add: served_queue_calls replicate_app_Cons_same)

lemma replies_length: "length (replies P c cmds w) = length cmds"
  by (induction cmds arbitrary: w) simp_all

lemma queue_of_final: "queue_of (set_alive c v (set_commands c (Some q) w)) c = q"
  by (simp add: queue_of_def set_alive_def set_commands_def)

lemma run_to_stop:
  assumes "queue_of w c = cmds @ s # rest"
    and "\<forall>cmd \<in> set cmds. type cmd \<noteq> cmd_stop"
    and "type s = cmd_stop"
  shows "esqlite_connection_run P c w =
           Returned (set_alive c 0 (set_commands c (Some rest)
             (log_call (Command_destroy s)
                (log_call Queue_pop (served_all P c cmds (set_alive c 1 w))))))"
proof -
  have "run_loop P c (queue_of w c) (set_alive c 1 w)
          = run_loop P c (s # rest) (served_all P c cmds (set_alive c 1 w))"
    unfolding assms(1) by (rule run_loop_prefix [OF assms(2)])
  also have "\<dots> = Returned (rest, log_call (Command_destroy s)
                (log_call Queue_pop (served_all P c cmds (set_alive c 1 w))))"
    using assms(3) by (simp add: Let_def)
  finally show ?thesis by (simp add: esqlite_connection_run_def)
qed

text \<open>
  C3. Let the queue hold commands that are no stop commands, then a stop command, then
  anything. The worker returns. It has served the commands before the stop command in
  order, each popped, evaluated by \<^verbatim>\<open>evaluate_command\<close> in the world the commands
  before it have left, answered and destroyed; then it has popped and destroyed the
  stop command; the commands behind the stop command are left in the queue. The
  messages sent are exactly one for each command before the stop command, in the order
  of the commands, to the destination of that command and pairing its token with the
  result of its evaluation; nothing is sent for the stop command, whose destruction is
  the last entry of the log. Nothing is assumed of the results, so a result that is an
  error does not end the loop. If the queue holds no stop command, every command is
  served and answered in the same way and the worker then waits in \<^verbatim>\<open>queue_pop\<close>.
\<close>

theorem worker_replies:
  "(queue_of w c = cmds @ s # rest \<and> (\<forall>cmd \<in> set cmds. type cmd \<noteq> cmd_stop)
      \<and> type s = cmd_stop \<longrightarrow>
     (\<exists>w'. esqlite_connection_run P c w = Returned w'
        \<and> w' = set_alive c 0 (set_commands c (Some rest)
                 (log_call (Command_destroy s)
                    (log_call Queue_pop (served_all P c cmds (set_alive c 1 w)))))
        \<and> queue_of w' c = rest
        \<and> filter is_send (hist w') = filter is_send (hist w) @ replies P c cmds (set_alive c 1 w)
        \<and> length (replies P c cmds (set_alive c 1 w)) = length cmds
        \<and> last (hist w') = Command_destroy s))
   \<and> (queue_of w c = cmds \<and> (\<forall>cmd \<in> set cmds. type cmd \<noteq> cmd_stop) \<longrightarrow>
     (\<exists>w'. esqlite_connection_run P c w = Waiting w'
        \<and> w' = set_commands c (Some [])
                 (log_call Queue_pop (served_all P c cmds (set_alive c 1 w)))
        \<and> filter is_send (hist w') = filter is_send (hist w) @ replies P c cmds (set_alive c 1 w)
        \<and> length (replies P c cmds (set_alive c 1 w)) = length cmds))"
proof (intro conjI impI)
  assume a: "queue_of w c = cmds @ s # rest \<and> (\<forall>cmd \<in> set cmds. type cmd \<noteq> cmd_stop)
      \<and> type s = cmd_stop"
  then have q: "queue_of w c = cmds @ s # rest"
    and n: "\<forall>cmd \<in> set cmds. type cmd \<noteq> cmd_stop" and t: "type s = cmd_stop"
    by simp_all
  let ?w1 = "served_all P c cmds (set_alive c 1 w)"
  let ?w' = "set_alive c 0 (set_commands c (Some rest)
               (log_call (Command_destroy s) (log_call Queue_pop ?w1)))"
  have 1: "esqlite_connection_run P c w = Returned ?w'" by (rule run_to_stop [OF q n t])
  have 2: "queue_of ?w' c = rest" by (rule queue_of_final)
  have h: "hist ?w' = hist ?w1 @ [Queue_pop, Command_destroy s]"
    by (simp add: set_alive_def set_commands_def log_call_def)
  have s1: "filter is_send (hist ?w1) = filter is_send (hist w) @ replies P c cmds (set_alive c 1 w)"
    using served_all_sends [of P c cmds "set_alive c 1 w"] by (simp add: set_alive_def)
  have 3: "filter is_send (hist ?w') = filter is_send (hist w) @ replies P c cmds (set_alive c 1 w)"
    unfolding h using s1 by (simp add: is_send_def)
  have 4: "last (hist ?w') = Command_destroy s" unfolding h by simp
  show "\<exists>w'. esqlite_connection_run P c w = Returned w'
        \<and> w' = set_alive c 0 (set_commands c (Some rest)
                 (log_call (Command_destroy s)
                    (log_call Queue_pop (served_all P c cmds (set_alive c 1 w)))))
        \<and> queue_of w' c = rest
        \<and> filter is_send (hist w') = filter is_send (hist w) @ replies P c cmds (set_alive c 1 w)
        \<and> length (replies P c cmds (set_alive c 1 w)) = length cmds
        \<and> last (hist w') = Command_destroy s"
    using 1 2 3 4 replies_length [of P c cmds "set_alive c 1 w"] by simp
next
  assume a: "queue_of w c = cmds \<and> (\<forall>cmd \<in> set cmds. type cmd \<noteq> cmd_stop)"
  then have q: "queue_of w c = cmds" and n: "\<forall>cmd \<in> set cmds. type cmd \<noteq> cmd_stop"
    by simp_all
  let ?w1 = "served_all P c cmds (set_alive c 1 w)"
  let ?w' = "set_commands c (Some []) (log_call Queue_pop ?w1)"
  have "run_loop P c (cmds @ []) (set_alive c 1 w) = run_loop P c [] ?w1"
    by (rule run_loop_prefix [OF n])
  then have r: "run_loop P c (queue_of w c) (set_alive c 1 w) = Waiting ([], log_call Queue_pop ?w1)"
    using q by simp
  have 1: "esqlite_connection_run P c w = Waiting ?w'"
    by (simp add: esqlite_connection_run_def r)
  have s1: "filter is_send (hist ?w1) = filter is_send (hist w) @ replies P c cmds (set_alive c 1 w)"
    using served_all_sends [of P c cmds "set_alive c 1 w"] by (simp add: set_alive_def)
  have 3: "filter is_send (hist ?w') = filter is_send (hist w) @ replies P c cmds (set_alive c 1 w)"
    using s1 by (simp add: set_commands_def log_call_def is_send_def)
  show "\<exists>w'. esqlite_connection_run P c w = Waiting w'
        \<and> w' = set_commands c (Some [])
                 (log_call Queue_pop (served_all P c cmds (set_alive c 1 w)))
        \<and> filter is_send (hist w') = filter is_send (hist w) @ replies P c cmds (set_alive c 1 w)
        \<and> length (replies P c cmds (set_alive c 1 w)) = length cmds"
    using 1 3 replies_length [of P c cmds "set_alive c 1 w"] by simp
qed

theorem worker_replies_witness:
  "\<exists>w'. esqlite_connection_run (const_platform 101) 0
            (set_commands 0
               (Some [\<lparr>type = cmd_step, ref = ERef 5, pid = Some 7, arg = ENonValue, stmt = Some 2\<rparr>,
                      stop_command,
                      \<lparr>type = cmd_close, ref = ERef 6, pid = Some 7, arg = ENonValue, stmt = None\<rparr>])
               world0) = Returned w'
     \<and> queue_of w' 0
         = [\<lparr>type = cmd_close, ref = ERef 6, pid = Some 7, arg = ENonValue, stmt = None\<rparr>]
     \<and> filter is_send (hist w') = [Enif_send (Some 7) (ETuple [ERef 5, EAtom ''$done''])]
     \<and> hist w' = [Queue_pop, Sqlite3_step (Some 2),
                   Enif_send (Some 7) (ETuple [ERef 5, EAtom ''$done'']),
                   Command_destroy \<lparr>type = cmd_step, ref = ERef 5, pid = Some 7,
                                     arg = ENonValue, stmt = Some 2\<rparr>,
                   Queue_pop, Command_destroy stop_command]"
proof -
  let ?c1 = "\<lparr>type = cmd_step, ref = ERef 5, pid = Some 7, arg = ENonValue, stmt = Some 2\<rparr>"
  let ?c2 = "\<lparr>type = cmd_close, ref = ERef 6, pid = Some 7, arg = ENonValue, stmt = None\<rparr>"
  let ?W = "set_commands 0 (Some [?c1, stop_command, ?c2]) world0"
  have q: "queue_of ?W 0 = [?c1] @ stop_command # [?c2]"
    by (simp add: queue_of_def set_commands_def)
  have n: "\<forall>cmd \<in> set [?c1]. type cmd \<noteq> cmd_stop" by simp
  have t: "type stop_command = cmd_stop" by (simp add: stop_command_def)
  have h: "hist ?W = []" by (simp add: set_commands_def world0_def)
  have ev: "evaluate_command (const_platform 101) ?c1 0 wi
              = (EAtom ''$done'', wi\<lparr>hist := hist wi @ [Sqlite3_step (Some 2)]\<rparr>)" for wi
    by (simp add: evaluate_command_def lift_stmt_def do_step_def Let_def const_platform_def
        SQLITE_DONE_def make_atom_def)
  have r: "replies (const_platform 101) 0 [?c1] wi
             = [Enif_send (Some 7) (ETuple [ERef 5, EAtom ''$done''])]" for wi
    by (simp add: ev)
  have sa: "hist (served_all (const_platform 101) 0 [?c1] (set_alive 0 1 ?W))
              = [Queue_pop, Sqlite3_step (Some 2),
                 Enif_send (Some 7) (ETuple [ERef 5, EAtom ''$done'']), Command_destroy ?c1]"
    by (simp add: served_def ev log_call_def set_alive_def h)
  from worker_replies [where P = "const_platform 101" and w = ?W and c = 0
      and cmds = "[?c1]" and s = stop_command and rest = "[?c2]",
      THEN conjunct1, THEN mp, OF conjI [OF q conjI [OF n t]]]
  obtain w'
    where 1: "esqlite_connection_run (const_platform 101) 0 ?W = Returned w'"
      and 0: "w' = set_alive 0 0 (set_commands 0 (Some [?c2])
                 (log_call (Command_destroy stop_command)
                    (log_call Queue_pop
                       (served_all (const_platform 101) 0 [?c1] (set_alive 0 1 ?W)))))"
      and 2: "queue_of w' 0 = [?c2]"
      and 3: "filter is_send (hist w')
                = filter is_send (hist ?W) @ replies (const_platform 101) 0 [?c1] (set_alive 0 1 ?W)"
    by blast
  have 4: "filter is_send (hist w') = [Enif_send (Some 7) (ETuple [ERef 5, EAtom ''$done''])]"
    using 3 unfolding r h by simp
  have 5: "hist w' = [Queue_pop, Sqlite3_step (Some 2),
                   Enif_send (Some 7) (ETuple [ERef 5, EAtom ''$done'']),
                   Command_destroy ?c1, Queue_pop, Command_destroy stop_command]"
    unfolding 0 using sa by (simp add: set_alive_def set_commands_def log_call_def)
  show ?thesis using 1 2 4 5 by blast
qed

subsection \<open>Destroying a connection\<close>

lemma queue_push_accepted:
  assumes "commands (conns w c) = Some q" and "rc P (hist w @ [Queue_push cmd]) \<noteq> 0"
  shows "queue_push P c cmd w
           = (True, set_commands c (Some (q @ [cmd])) (log_call (Queue_push cmd) w))"
  using assms by (simp add: queue_push_def Let_def log_call_def)

lemma destruct_log:
  assumes "ptr P (hist w @ [Enif_alloc]) \<noteq> None"
    and "ptr P (hist w @ [Enif_alloc, Enif_alloc_env]) \<noteq> None"
    and "commands (conns w c) = Some cmds"
    and "\<forall>cmd \<in> set cmds. type cmd \<noteq> cmd_stop"
    and "rc P (hist w @ [Enif_alloc, Enif_alloc_env, Queue_push stop_command]) \<noteq> 0"
    and "w3 = log_call (Queue_send stop_command)
                (set_commands c (Some (cmds @ [stop_command]))
                   (log_call (Queue_push stop_command)
                      (log_call Enif_alloc_env (log_call Enif_alloc w))))"
    and "wr = set_alive c 0 (set_commands c (Some [])
                (log_call (Command_destroy stop_command)
                   (log_call Queue_pop (served_all P c cmds (set_alive c 1 w3)))))"
  shows "hist w3 = hist w @ [Enif_alloc, Enif_alloc_env,
                             Queue_push stop_command, Queue_send stop_command]
         \<and> esqlite_connection_run P c w3 = Returned wr
         \<and> (\<exists>w'. destruct_esqlite_connection P c w = Destroyed w'
               \<and> hist w' = hist wr
                   @ [Enif_thread_join, Enif_thread_opts_destroy, Queue_destroy]
                   @ (if db (conns wr c) = None then []
                      else [Sqlite3_close (db (conns wr c))])
               \<and> filter is_queue_call (hist w') = filter is_queue_call (hist w)
                   @ [Queue_push stop_command, Queue_send stop_command]
                   @ replicate (length cmds + 1) Queue_pop @ [Queue_destroy])"
proof -
  let ?w0 = "log_call Enif_alloc_env (log_call Enif_alloc w)"
  have c: "command_create P w = (Some fresh_command, ?w0)"
    using assms(1,2) by (auto simp add: command_create_def Let_def log_call_def)
  have q0: "commands (conns ?w0 c) = Some cmds" using assms(3) by (simp add: log_call_def)
  have r0: "rc P (hist ?w0 @ [Queue_push stop_command]) \<noteq> 0"
    using assms(5) by (simp add: log_call_def)
  have p: "queue_push P c stop_command ?w0
             = (True, set_commands c (Some (cmds @ [stop_command]))
                        (log_call (Queue_push stop_command) ?w0))"
    by (rule queue_push_accepted [OF q0 r0])
  have h3: "hist w3 = hist w @ [Enif_alloc, Enif_alloc_env,
                             Queue_push stop_command, Queue_send stop_command]"
    unfolding assms(6) by (simp add: log_call_def set_commands_def)
  have q3: "queue_of w3 c = cmds @ stop_command # []"
    unfolding assms(6) by (simp add: queue_of_def log_call_def set_commands_def)
  have t: "type stop_command = cmd_stop" by (simp add: stop_command_def)
  have run: "esqlite_connection_run P c w3 = Returned wr"
    unfolding assms(7) by (rule run_to_stop [OF q3 assms(4) t])
  let ?w7 = "log_call Queue_destroy (log_call Enif_thread_opts_destroy
               (log_call Enif_thread_join wr))"
  let ?w' = "if db (conns wr c) = None then ?w7
             else log_call (Sqlite3_close (db (conns wr c))) ?w7"
  have d7: "db (conns ?w7 c) = db (conns wr c)" by (simp add: log_call_def)
  have w3': "log_call (Queue_send stop_command) (snd (queue_push P c stop_command ?w0)) = w3"
    unfolding p assms(6) by simp
  have d: "destruct_esqlite_connection P c w = Destroyed ?w'"
    using d7
    by (simp add: destruct_esqlite_connection_def c Let_def stop_command_def [symmetric]
        w3' run)
  have h': "hist ?w' = hist wr
                   @ [Enif_thread_join, Enif_thread_opts_destroy, Queue_destroy]
                   @ (if db (conns wr c) = None then []
                      else [Sqlite3_close (db (conns wr c))])"
    by (simp add: log_call_def)
  have qs: "filter is_queue_call (hist (served_all P c cmds (set_alive c 1 w3)))
              = filter is_queue_call (hist w) @ [Queue_push stop_command, Queue_send stop_command]
                @ replicate (length cmds) Queue_pop"
    using served_all_queue_calls [of P c cmds "set_alive c 1 w3"] h3
    by (simp add: set_alive_def is_queue_call_def)
  have qr: "filter is_queue_call (hist wr)
              = filter is_queue_call (hist w) @ [Queue_push stop_command, Queue_send stop_command]
                @ replicate (length cmds + 1) Queue_pop"
    unfolding assms(7) using qs
    by (simp add: set_alive_def set_commands_def log_call_def is_queue_call_def
        replicate_append_same)
  have q': "filter is_queue_call (hist ?w') = filter is_queue_call (hist w)
                   @ [Queue_push stop_command, Queue_send stop_command]
                   @ replicate (length cmds + 1) Queue_pop @ [Queue_destroy]"
    unfolding h' using qr by (simp add: is_queue_call_def)
  show ?thesis using h3 run d h' q' by blast
qed


text \<open>
  C6, as amended. Let the stop command be allocated, and pushed onto a queue that holds
  no stop command. The destructor then makes these calls, in this order: the two
  allocations of the command, one \<^verbatim>\<open>queue_push\<close> of the stop command,
  \<^verbatim>\<open>queue_send\<close> of the same command, and the join of the worker thread. Before the
  join returns the worker serves the commands that were still in the queue and then
  pops and destroys the stop command. After the join the destructor destroys the
  thread options, calls \<^verbatim>\<open>queue_destroy\<close>, and calls \<^verbatim>\<open>sqlite3_close\<close> on the
  engine handle if that handle is not \<^verbatim>\<open>NULL\<close> in the world the worker has left. So
  there is one push, the calls on the queue between it and the join are
  \<^verbatim>\<open>queue_send\<close> and the pops of the worker, and the only call on the queue after
  the join is \<^verbatim>\<open>queue_destroy\<close>.
\<close>

theorem destruct_sequence:
  assumes "ptr P (hist w @ [Enif_alloc]) \<noteq> None"
    and "ptr P (hist w @ [Enif_alloc, Enif_alloc_env]) \<noteq> None"
    and "commands (conns w c) = Some cmds"
    and "\<forall>cmd \<in> set cmds. type cmd \<noteq> cmd_stop"
    and "rc P (hist w @ [Enif_alloc, Enif_alloc_env, Queue_push stop_command]) \<noteq> 0"
    and "w3 = log_call (Queue_send stop_command)
                (set_commands c (Some (cmds @ [stop_command]))
                   (log_call (Queue_push stop_command)
                      (log_call Enif_alloc_env (log_call Enif_alloc w))))"
    and "wr = set_alive c 0 (set_commands c (Some [])
                (log_call (Command_destroy stop_command)
                   (log_call Queue_pop (served_all P c cmds (set_alive c 1 w3)))))"
  shows "hist w3 = hist w @ [Enif_alloc, Enif_alloc_env,
                             Queue_push stop_command, Queue_send stop_command]
         \<and> esqlite_connection_run P c w3 = Returned wr
         \<and> (\<exists>w'. destruct_esqlite_connection P c w = Destroyed w'
               \<and> hist w' = hist wr
                   @ [Enif_thread_join, Enif_thread_opts_destroy, Queue_destroy]
                   @ (if db (conns wr c) = None then []
                      else [Sqlite3_close (db (conns wr c))])
               \<and> filter is_queue_call (hist w') = filter is_queue_call (hist w)
                   @ [Queue_push stop_command, Queue_send stop_command]
                   @ replicate (length cmds + 1) Queue_pop @ [Queue_destroy])"
  using assms by (rule destruct_log)

theorem destruct_calls_queue_send:
  "final_log (destruct_esqlite_connection row_platform 0 world_open)
     = Some [Enif_alloc, Enif_alloc_env, Queue_push stop_command, Queue_send stop_command,
         Queue_pop, Command_destroy stop_command,
         Enif_thread_join, Enif_thread_opts_destroy, Queue_destroy, Sqlite3_close (Some 3)]"
proof -
  have a: "ptr row_platform (hist world_open @ [Enif_alloc]) \<noteq> None"
    "ptr row_platform (hist world_open @ [Enif_alloc, Enif_alloc_env]) \<noteq> None"
    by (simp_all add: row_platform_def)
  have q: "commands (conns world_open 0) = Some []" by (simp add: world_open_def)
  have n: "\<forall>cmd \<in> set []. type cmd \<noteq> cmd_stop" by simp
  have p: "rc row_platform (hist world_open @ [Enif_alloc, Enif_alloc_env,
              Queue_push stop_command]) \<noteq> 0"
    by (simp add: row_platform_def row_rc_def)
  have h: "hist world_open = []" by (simp add: world_open_def)
  have d: "db (conns world_open 0) = Some 3" by (simp add: world_open_def)
  from destruct_log [OF a q n p refl refl] obtain w'
    where w': "destruct_esqlite_connection row_platform 0 world_open = Destroyed w'"
      and hw: "hist w' = [Enif_alloc, Enif_alloc_env, Queue_push stop_command,
         Queue_send stop_command, Queue_pop, Command_destroy stop_command,
         Enif_thread_join, Enif_thread_opts_destroy, Queue_destroy, Sqlite3_close (Some 3)]"
    by (auto simp add: set_alive_def set_commands_def log_call_def h d)
  show ?thesis unfolding w' using hw by (simp add: final_log_def)
qed

theorem destruct_sequence_witness:
  "final_log (destruct_esqlite_connection row_platform 0
      (set_commands 0 (Some [close_command]) world_open))
     = Some [Enif_alloc, Enif_alloc_env, Queue_push stop_command, Queue_send stop_command,
         Queue_pop, Sqlite3_close (Some 3), Enif_send (Some 7) (ETuple [ERef 6, EAtom ''ok'']),
         Command_destroy close_command,
         Queue_pop, Command_destroy stop_command,
         Enif_thread_join, Enif_thread_opts_destroy, Queue_destroy]"
proof -
  let ?W = "set_commands 0 (Some [close_command]) world_open"
  have h: "hist ?W = []" by (simp add: world_open_def set_commands_def)
  have a: "ptr row_platform (hist ?W @ [Enif_alloc]) \<noteq> None"
    "ptr row_platform (hist ?W @ [Enif_alloc, Enif_alloc_env]) \<noteq> None"
    by (simp_all add: row_platform_def)
  have q: "commands (conns ?W 0) = Some [close_command]" by (simp add: set_commands_def)
  have n: "\<forall>cmd \<in> set [close_command]. type cmd \<noteq> cmd_stop"
    by (simp add: close_command_def)
  have p: "rc row_platform (hist ?W @ [Enif_alloc, Enif_alloc_env,
              Queue_push stop_command]) \<noteq> 0"
    by (simp add: row_platform_def row_rc_def)
  let ?w3 = "log_call (Queue_send stop_command)
                (set_commands 0 (Some ([close_command] @ [stop_command]))
                   (log_call (Queue_push stop_command)
                      (log_call Enif_alloc_env (log_call Enif_alloc ?W))))"
  have ev: "evaluate_command row_platform close_command 0 wi
              = (EAtom ''ok'', set_db 0 None (log_call (Sqlite3_close (Some 3)) wi))"
    if "db (conns wi 0) = Some 3" for wi
    using that
    by (simp add: evaluate_command_def close_command_def do_close_def Let_def log_call_def
        row_platform_def row_rc_def SQLITE_OK_def make_atom_def)
  have d3: "db (conns (log_call Queue_pop (set_alive 0 1 ?w3)) 0) = Some 3"
    by (simp add: log_call_def set_alive_def set_commands_def world_open_def)
  have h3: "hist (log_call Queue_pop (set_alive 0 1 ?w3))
              = [Enif_alloc, Enif_alloc_env, Queue_push stop_command, Queue_send stop_command,
                 Queue_pop]"
    by (simp add: log_call_def set_alive_def set_commands_def world_open_def)
  have sv: "served row_platform 0 close_command (set_alive 0 1 ?w3)
              = log_call (Command_destroy close_command)
                  (log_call (Enif_send (pid close_command) (ETuple [ref close_command, EAtom ''ok'']))
                     (set_db 0 None
                        (log_call (Sqlite3_close (Some 3)) (log_call Queue_pop (set_alive 0 1 ?w3)))))"
    by (simp only: served_def ev [OF d3] prod.case)
  have hs: "hist (served_all row_platform 0 [close_command] (set_alive 0 1 ?w3))
              = [Enif_alloc, Enif_alloc_env, Queue_push stop_command, Queue_send stop_command,
                 Queue_pop, Sqlite3_close (Some 3),
                 Enif_send (Some 7) (ETuple [ERef 6, EAtom ''ok'']),
                 Command_destroy close_command]"
    unfolding served_all.simps sv
    by (simp add: log_call_def set_db_def set_alive_def set_commands_def world_open_def
        close_command_def)
  have ds: "db (conns (served_all row_platform 0 [close_command] (set_alive 0 1 ?w3)) 0) = None"
    unfolding served_all.simps sv by (simp add: log_call_def set_db_def)
  from destruct_sequence [OF a q n p refl refl] obtain w'
    where w': "destruct_esqlite_connection row_platform 0 ?W = Destroyed w'"
      and hw: "hist w' = [Enif_alloc, Enif_alloc_env, Queue_push stop_command,
         Queue_send stop_command,
         Queue_pop, Sqlite3_close (Some 3), Enif_send (Some 7) (ETuple [ERef 6, EAtom ''ok'']),
         Command_destroy close_command, Queue_pop, Command_destroy stop_command,
         Enif_thread_join, Enif_thread_opts_destroy, Queue_destroy]"
    using hs ds by (auto simp add: set_alive_def set_commands_def log_call_def)
  show ?thesis unfolding w' using hw by (simp add: final_log_def)
qed

end
